theory Spec2Isabelle
  imports Main "HOL-Library.AList"
begin

section \<open>JavaScript values and DOM nodes\<close>

text \<open>
  The library is dynamically typed, so descriptions, payloads and problems are JavaScript
  values. An object is the list of its own enumerable string-keyed properties in the
  order \<open>Object.entries\<close> lists them (keys are distinct). An array carries its items and,
  separately, named properties assigned to it. Functions are opaque and known by an
  identifier. Numbers are the integers, which is all the library computes with.

  DOM nodes are mutable objects shared by reference: the same node can be named twice in
  a description, and \<open>appendChild\<close> moves a node that is a child already. So a node value
  is a reference, and the nodes themselves live in a store. A node is represented by what
  has been done to it since it was created: the values assigned to \<open>innerText\<close> and
  \<open>innerHTML\<close>, the attributes given to \<open>setAttribute\<close> (the value as passed, before the
  browser converts it to a string), the properties assigned directly, the nodes appended
  by \<open>appendChild\<close> (as \<open>childNodes\<close>, in order) and the listeners added. What the browser
  derives from these (the parse of \<open>innerHTML\<close>, properties reflected into attributes) is
  the browser's.
\<close>

datatype jsval =
    JUndefined
  | JNull
  | JBool bool
  | JNum int
  | JStr string
  | JArr "jsval list" "(string \<times> jsval) list"
  | JObj "(string \<times> jsval) list"
  | JFun nat
  | JElem nat

record node =
  tagName :: string
  innerText :: "jsval option"
  innerHTML :: "jsval option"
  attributes :: "(string \<times> jsval) list"
  properties :: "(string \<times> jsval) list"
  childNodes :: "nat list"
  listeners :: "(string \<times> jsval) list"

datatype exn = TypeError | DOMException string | Error string

datatype log = LogWarn string jsval | LogError exn

type_synonym console = "log list"

text \<open>
  The document: the node behind every reference, the next reference
  \<open>document.createElement\<close> will hand out (the references below it are the nodes that
  exist), and what was written to the console.
\<close>

record dom =
  nodes :: "nat \<Rightarrow> node"
  next_ref :: nat
  logged :: console

definition console_log :: "log \<Rightarrow> dom \<Rightarrow> dom" where
  "console_log l d = d\<lparr>logged := logged d @ [l]\<rparr>"

definition modify :: "nat \<Rightarrow> (node \<Rightarrow> node) \<Rightarrow> dom \<Rightarrow> dom" where
  "modify r f d = d\<lparr>nodes := (nodes d)(r := f (nodes d r))\<rparr>"

text \<open>JavaScript truthiness: \<open>if (v)\<close> and \<open>!v\<close>.\<close>

fun truthy :: "jsval \<Rightarrow> bool" where
  "truthy JUndefined = False"
| "truthy JNull = False"
| "truthy (JBool b) = b"
| "truthy (JNum n) = (n \<noteq> 0)"
| "truthy (JStr s) = (s \<noteq> [])"
| "truthy (JArr xs ps) = True"
| "truthy (JObj ps) = True"
| "truthy (JFun f) = True"
| "truthy (JElem r) = True"

text \<open>Decimal digits of a number, as \<open>String(n)\<close> and string concatenation print it.\<close>

fun dec :: "nat \<Rightarrow> string" where
  "dec n = (if n < 10 then [''0123456789'' ! n]
            else dec (n div 10) @ [''0123456789'' ! (n mod 10)])"

declare dec.simps [simp del]

fun lookup :: "(string \<times> jsval) list \<Rightarrow> string \<Rightarrow> jsval" where
  "lookup ps k = (case map_of ps k of None \<Rightarrow> JUndefined | Some v \<Rightarrow> v)"

text \<open>
  Reading a property \<open>v.k\<close>. Reading from \<open>undefined\<close> or \<open>null\<close> raises a TypeError;
  a primitive, a function or an array has none of the names this library reads
  (\<open>element\<close>, \<open>svg\<close>, \<open>tag\<close>, \<open>text\<close>, \<open>html\<close>, \<open>props\<close>, \<open>content\<close>, \<open>events\<close>,
  \<open>callback\<close>, \<open>tagName\<close>, \<open>status\<close>, \<open>detail\<close>, \<open>message\<close>) unless it was assigned. Of
  a node only \<open>tagName\<close> is read, and that is in the document: \<open>get_tagName\<close> reads
  \<open>v.tagName\<close> whatever \<open>v\<close> is.
\<close>

fun get_prop :: "jsval \<Rightarrow> string \<Rightarrow> exn + jsval" where
  "get_prop JUndefined k = Inl TypeError"
| "get_prop JNull k = Inl TypeError"
| "get_prop (JObj ps) k = Inr (lookup ps k)"
| "get_prop (JArr xs ps) k = Inr (lookup ps k)"
| "get_prop v k = Inr JUndefined"

definition get_tagName :: "dom \<Rightarrow> jsval \<Rightarrow> exn + jsval" where
  "get_tagName d v =
     (case v of
        JElem r \<Rightarrow> Inr (JStr (tagName (nodes d r)))
      | _ \<Rightarrow> get_prop v ''tagName'')"

text \<open>\<open>Object.entries(v)\<close> of a value that is neither \<open>undefined\<close> nor \<open>null\<close>.\<close>

fun entries :: "jsval \<Rightarrow> (string \<times> jsval) list" where
  "entries (JObj ps) = ps"
| "entries (JArr xs ps) = zip (map dec [0..<length xs]) xs @ ps"
| "entries (JStr s) = zip (map dec [0..<length s]) (map (\<lambda>ch. JStr [ch]) s)"
| "entries v = []"

text \<open>
  \<open>v == 'NAME'\<close> for a literal made of letters, as a tag name is. A string is compared
  as it is. An array is compared by its string, the strings of its items joined by
  commas: that is the literal only for an array of one item whose string is the literal.
  \<open>undefined\<close>, \<open>null\<close>, numbers and booleans equal no such literal, and neither does the
  string of an object, a function or a node.
\<close>

fun loose_eq :: "jsval \<Rightarrow> string \<Rightarrow> bool" where
  "loose_eq (JStr s) name = (s = name)"
| "loose_eq (JArr [x] ps) name = loose_eq x name"
| "loose_eq v name = False"

section \<open>The browser\<close>

text \<open>
  The DOM is not part of the library. Which of its calls raise, and what they return,
  is a parameter: \<open>document_createElement\<close> gives the \<open>tagName\<close> of the new element or the
  exception raised for the tag; \<open>parseFromString\<close> gives the \<open>nodeName\<close> of the
  \<open>documentElement\<close> of the document a new \<open>DOMParser\<close> parses from the string, or the
  exception raised on the way; \<open>raises\<close> tells whether a call on a node raises in the
  document as it is; \<open>invoke\<close> tells whether a user function raises when called with the
  given arguments.
\<close>

datatype dom_call =
    SetInnerText nat jsval
  | SetInnerHTML nat jsval
  | SetAttribute nat string jsval
  | SetProperty nat string jsval
  | AppendChild nat nat
  | AddEventListener nat string jsval

record browser =
  document_createElement :: "jsval \<Rightarrow> exn + string"
  parseFromString :: "jsval \<Rightarrow> exn + string"
  raises :: "dom \<Rightarrow> dom_call \<Rightarrow> exn option"
  invoke :: "nat \<Rightarrow> jsval list \<Rightarrow> exn option"

text \<open>A new node: nothing was done to it yet, and no reference named it before.\<close>

definition create :: "string \<Rightarrow> dom \<Rightarrow> nat \<times> dom" where
  "create name d =
     (next_ref d,
      d\<lparr>nodes := (nodes d)(next_ref d :=
             \<lparr>tagName = name, innerText = None, innerHTML = None, attributes = [],
              properties = [], childNodes = [], listeners = []\<rparr>),
        next_ref := Suc (next_ref d)\<rparr>)"

section \<open>The element builder\<close>

definition excluded_keys :: "string list" where
  "excluded_keys = [''tag'', ''text'', ''html'', ''props'', ''content'', ''events'', ''callback'']"

text \<open>
  The handler of both \<open>catch\<close> blocks: \<open>console.error(error); return null\<close>. What the
  \<open>try\<close> block did to the document before the exception stays done.
\<close>

fun try_catch :: "(exn + jsval) \<times> dom \<Rightarrow> (exn + jsval) \<times> dom" where
  "try_catch (Inl x, d) = (Inr JNull, console_log (LogError x) d)"
| "try_catch (Inr v, d) = (Inr v, d)"

text \<open>
  Lines 108 to 121. The element a successful parse gives is a new node; what is below it
  is the browser's.
\<close>

definition createSVGElement :: "browser \<Rightarrow> jsval \<Rightarrow> dom \<Rightarrow> (exn + jsval) \<times> dom" where
  "createSVGElement B svgString d =
     try_catch
       (case parseFromString B svgString of
          Inl x \<Rightarrow> (Inl x, d)
        | Inr nodeName \<Rightarrow>
            if nodeName = ''parsererror''
            then (Inl (Error ''Error parsing SVG string''), d)
            else (case create nodeName d of (svgElem, d') \<Rightarrow> (Inr (JElem svgElem), d')))"

text \<open>Lines 42 to 53: the tag, explicit or inferred from the parent.\<close>

definition determine_tag :: "jsval \<Rightarrow> jsval \<Rightarrow> dom \<Rightarrow> (exn + jsval) \<times> dom" where
  "determine_tag info parent d =
     (case get_prop info ''tag'' of
        Inl x \<Rightarrow> (Inl x, d)
      | Inr tag \<Rightarrow>
          if truthy tag then (Inr tag, d)
          else (case get_tagName d parent of
                  Inl x \<Rightarrow> (Inl x, d)
                | Inr p \<Rightarrow>
                    if loose_eq p ''SELECT'' then (Inr (JStr ''OPTION''), d)
                    else if loose_eq p ''UL'' \<or> loose_eq p ''OL'' then (Inr (JStr ''LI''), d)
                    else (Inr (JStr ''SPAN''),
                          console_log (LogWarn ''No element tag specified in:'' info) d)))"

text \<open>Line 54.\<close>

definition new_element :: "browser \<Rightarrow> jsval \<Rightarrow> dom \<Rightarrow> (exn + nat) \<times> dom" where
  "new_element B tag d =
     (case document_createElement B tag of
        Inl x \<Rightarrow> (Inl x, d)
      | Inr name \<Rightarrow> (case create name d of (elem, d') \<Rightarrow> (Inr elem, d')))"

text \<open>
  The statements that follow act on the node \<open>elem\<close>; each gives the exception it raised,
  if any, and the document after it. Lines 56 and 57:
\<close>

definition set_text :: "browser \<Rightarrow> jsval \<Rightarrow> nat \<Rightarrow> dom \<Rightarrow> exn option \<times> dom" where
  "set_text B info elem d =
     (case get_prop info ''text'' of
        Inl x \<Rightarrow> (Some x, d)
      | Inr t \<Rightarrow>
          if truthy t
          then (case raises B d (SetInnerText elem t) of
                  Some x \<Rightarrow> (Some x, d)
                | None \<Rightarrow> (None, modify elem (\<lambda>n. n\<lparr>innerText := Some t\<rparr>) d))
          else (None, d))"

definition set_html :: "browser \<Rightarrow> jsval \<Rightarrow> nat \<Rightarrow> dom \<Rightarrow> exn option \<times> dom" where
  "set_html B info elem d =
     (case get_prop info ''html'' of
        Inl x \<Rightarrow> (Some x, d)
      | Inr h \<Rightarrow>
          if truthy h
          then (case raises B d (SetInnerHTML elem h) of
                  Some x \<Rightarrow> (Some x, d)
                | None \<Rightarrow> (None, modify elem (\<lambda>n. n\<lparr>innerHTML := Some h\<rparr>) d))
          else (None, d))"

text \<open>Lines 60 to 66: the loop over \<open>Object.entries(info)\<close>.\<close>

definition setAttribute :: "browser \<Rightarrow> string \<Rightarrow> jsval \<Rightarrow> nat \<Rightarrow> dom \<Rightarrow> exn option \<times> dom" where
  "setAttribute B key v elem d =
     (case raises B d (SetAttribute elem key v) of
        Some x \<Rightarrow> (Some x, d)
      | None \<Rightarrow> (None, modify elem (\<lambda>n. n\<lparr>attributes := AList.update key v (attributes n)\<rparr>) d))"

fun set_attributes :: "browser \<Rightarrow> (string \<times> jsval) list \<Rightarrow> nat \<Rightarrow> dom \<Rightarrow> exn option \<times> dom" where
  "set_attributes B [] elem d = (None, d)"
| "set_attributes B ((key, v) # rest) elem d =
     (if v \<noteq> JUndefined \<and> v \<noteq> JNull
      then (if key \<notin> set excluded_keys
            then (case setAttribute B key v elem d of
                    (Some x, d') \<Rightarrow> (Some x, d')
                  | (None, d') \<Rightarrow> set_attributes B rest elem d')
            else set_attributes B rest elem d)
      else set_attributes B rest elem d)"

text \<open>Lines 69 to 75: the properties.\<close>

definition setProperty :: "browser \<Rightarrow> string \<Rightarrow> jsval \<Rightarrow> nat \<Rightarrow> dom \<Rightarrow> exn option \<times> dom" where
  "setProperty B key v elem d =
     (case raises B d (SetProperty elem key v) of
        Some x \<Rightarrow> (Some x, d)
      | None \<Rightarrow> (None, modify elem (\<lambda>n. n\<lparr>properties := AList.update key v (properties n)\<rparr>) d))"

fun assign_properties :: "browser \<Rightarrow> (string \<times> jsval) list \<Rightarrow> nat \<Rightarrow> dom \<Rightarrow> exn option \<times> dom" where
  "assign_properties B [] elem d = (None, d)"
| "assign_properties B ((key, v) # rest) elem d =
     (if v \<noteq> JUndefined \<and> v \<noteq> JNull
      then (case setProperty B key v elem d of
              (Some x, d') \<Rightarrow> (Some x, d')
            | (None, d') \<Rightarrow> assign_properties B rest elem d')
      else assign_properties B rest elem d)"

definition set_properties :: "browser \<Rightarrow> jsval \<Rightarrow> nat \<Rightarrow> dom \<Rightarrow> exn option \<times> dom" where
  "set_properties B info elem d =
     (case get_prop info ''props'' of
        Inl x \<Rightarrow> (Some x, d)
      | Inr props \<Rightarrow> if truthy props then assign_properties B (entries props) elem d else (None, d))"

text \<open>
  \<open>elem.appendChild(child)\<close>: an argument that is not a node is a TypeError of the
  interface; for a node the browser decides. The child is taken out of the children of
  whatever node had it, this one included, and becomes the last child.
\<close>

definition move_to :: "nat \<Rightarrow> nat \<Rightarrow> dom \<Rightarrow> dom" where
  "move_to elem ch d =
     d\<lparr>nodes := (\<lambda>r. (nodes d r)\<lparr>childNodes :=
                         (if r = elem then removeAll ch (childNodes (nodes d r)) @ [ch]
                          else removeAll ch (childNodes (nodes d r)))\<rparr>)\<rparr>"

definition appendChild :: "browser \<Rightarrow> nat \<Rightarrow> jsval \<Rightarrow> dom \<Rightarrow> exn option \<times> dom" where
  "appendChild B elem child d =
     (case child of
        JElem ch \<Rightarrow>
          (case raises B d (AppendChild elem ch) of
             Some x \<Rightarrow> (Some x, d)
           | None \<Rightarrow> (None, move_to elem ch d))
      | _ \<Rightarrow> (Some TypeError, d))"

text \<open>Lines 86 to 90: the event listeners.\<close>

definition addEventListener :: "browser \<Rightarrow> string \<Rightarrow> jsval \<Rightarrow> nat \<Rightarrow> dom \<Rightarrow> exn option \<times> dom" where
  "addEventListener B name handler elem d =
     (case raises B d (AddEventListener elem name handler) of
        Some x \<Rightarrow> (Some x, d)
      | None \<Rightarrow> (None, modify elem (\<lambda>n. n\<lparr>listeners := List.insert (name, handler) (listeners n)\<rparr>) d))"

fun attach_listeners :: "browser \<Rightarrow> (string \<times> jsval) list \<Rightarrow> nat \<Rightarrow> dom \<Rightarrow> exn option \<times> dom" where
  "attach_listeners B [] elem d = (None, d)"
| "attach_listeners B ((name, handler) # rest) elem d =
     (case addEventListener B name handler elem d of
        (Some x, d') \<Rightarrow> (Some x, d')
      | (None, d') \<Rightarrow> attach_listeners B rest elem d')"

definition add_event_listeners :: "browser \<Rightarrow> jsval \<Rightarrow> nat \<Rightarrow> dom \<Rightarrow> exn option \<times> dom" where
  "add_event_listeners B info elem d =
     (case get_prop info ''events'' of
        Inl x \<Rightarrow> (Some x, d)
      | Inr events \<Rightarrow> if truthy events then attach_listeners B (entries events) elem d else (None, d))"

text \<open>
  Line 92: \<open>if (info.callback) info.callback(elem, info, parent)\<close>. Calling a value that
  is not a function is a TypeError. What the user's function does to the document is its
  own.
\<close>

definition run_callback :: "browser \<Rightarrow> jsval \<Rightarrow> nat \<Rightarrow> jsval \<Rightarrow> dom \<Rightarrow> exn option \<times> dom" where
  "run_callback B info elem parent d =
     (case get_prop info ''callback'' of
        Inl x \<Rightarrow> (Some x, d)
      | Inr cb \<Rightarrow>
          if truthy cb
          then (case cb of
                  JFun f \<Rightarrow> (invoke B f [JElem elem, info, parent], d)
                | _ \<Rightarrow> (Some TypeError, d))
          else (None, d))"

text \<open>
  \<open>createElement\<close> (lines 37 to 100), the body of its \<open>try\<close> block (lines 42 to 94) and
  the \<open>forEach\<close> over \<open>info.content\<close> (lines 79 to 82). A result is \<open>Inl\<close> for an
  exception that leaves the code and \<open>Inr\<close> for a returned value; the document is threaded
  through, so that what was done and logged before an exception stays. \<open>forEach\<close> exists
  on arrays only, and the node under construction is the parent of each item.
\<close>

function createElement :: "browser \<Rightarrow> jsval \<Rightarrow> jsval \<Rightarrow> dom \<Rightarrow> (exn + jsval) \<times> dom"
  and try_block :: "browser \<Rightarrow> jsval \<Rightarrow> jsval \<Rightarrow> dom \<Rightarrow> (exn + jsval) \<times> dom"
  and add_inner_content :: "browser \<Rightarrow> jsval list \<Rightarrow> nat \<Rightarrow> dom \<Rightarrow> exn option \<times> dom"
where
  "createElement B info parent d =
     (if \<not> truthy info then (Inr JNull, d)
      else (case get_prop info ''element'' of
              Inl x \<Rightarrow> (Inl x, d)
            | Inr el \<Rightarrow>
                if truthy el then (Inr el, d)
                else (case get_prop info ''svg'' of
                        Inl x \<Rightarrow> (Inl x, d)
                      | Inr svg \<Rightarrow>
                          if truthy svg then createSVGElement B svg d
                          else try_catch (try_block B info parent d))))"
| "try_block B info parent d =
     (case determine_tag info parent d of
        (Inl x, d1) \<Rightarrow> (Inl x, d1)
      | (Inr tag, d1) \<Rightarrow>
     (case new_element B tag d1 of
        (Inl x, d2) \<Rightarrow> (Inl x, d2)
      | (Inr elem, d2) \<Rightarrow>
     (case set_text B info elem d2 of
        (Some x, d3) \<Rightarrow> (Inl x, d3)
      | (None, d3) \<Rightarrow>
     (case set_html B info elem d3 of
        (Some x, d4) \<Rightarrow> (Inl x, d4)
      | (None, d4) \<Rightarrow>
     (case set_attributes B (entries info) elem d4 of
        (Some x, d5) \<Rightarrow> (Inl x, d5)
      | (None, d5) \<Rightarrow>
     (case set_properties B info elem d5 of
        (Some x, d6) \<Rightarrow> (Inl x, d6)
      | (None, d6) \<Rightarrow>
     (case (case get_prop info ''content'' of
              Inl x \<Rightarrow> (Some x, d6)
            | Inr content \<Rightarrow>
                if truthy content
                then (case content of
                        JArr items ps \<Rightarrow> add_inner_content B items elem d6
                      | _ \<Rightarrow> (Some TypeError, d6))
                else (None, d6)) of
        (Some x, d7) \<Rightarrow> (Inl x, d7)
      | (None, d7) \<Rightarrow>
     (case add_event_listeners B info elem d7 of
        (Some x, d8) \<Rightarrow> (Inl x, d8)
      | (None, d8) \<Rightarrow>
     (case run_callback B info elem parent d8 of
        (Some x, d9) \<Rightarrow> (Inl x, d9)
      | (None, d9) \<Rightarrow> (Inr (JElem elem), d9))))))))))"
| "add_inner_content B [] elem d = (None, d)"
| "add_inner_content B (item # rest) elem d =
     (case createElement B item (JElem elem) d of
        (Inl x, d1) \<Rightarrow> (Some x, d1)
      | (Inr childElement, d1) \<Rightarrow>
          if truthy childElement
          then (case appendChild B elem childElement d1 of
                  (Some x, d2) \<Rightarrow> (Some x, d2)
                | (None, d2) \<Rightarrow> add_inner_content B rest elem d2)
          else add_inner_content B rest elem d1)"
  by pat_completeness auto
termination
proof -
  have in_object: "size v < Suc (size_list (size_prod (\<lambda>_. 0) size) ps)"
    if "map_of ps k = Some v" for ps :: "(string \<times> jsval) list" and k v
    using that by (induction ps) (auto split: if_splits)
  have items: "size_list size items < size info"
    if "get_prop info k = Inr (JArr items ps)" for d info k items ps
  proof (cases info)
    case (JObj kvs)
    with that have "map_of kvs k = Some (JArr items ps)"
      by (auto split: option.splits)
    from in_object [OF this] JObj show ?thesis by simp
  next
    case (JArr xs kvs)
    with that have "map_of kvs k = Some (JArr items ps)"
      by (auto split: option.splits)
    from in_object [OF this] JArr show ?thesis by simp
  qed (use that in \<open>auto split: if_splits\<close>)
  show ?thesis
    by (relation "measure (\<lambda>x. case x of
          Inl (B, info, parent, d) \<Rightarrow> 2 * size info + 1
        | Inr (Inl (B, info, parent, d)) \<Rightarrow> 2 * size info
        | Inr (Inr (B, items, elem, d)) \<Rightarrow> 2 * size_list size items + 1)")
       (auto dest: items)
qed

declare createElement.simps [simp del] try_block.simps [simp del]

section \<open>The toast notifier\<close>

text \<open>
  \<open>toastItems\<close> is the registry (line 123), from timer identifier to node; a node's
  \<open>style.opacity\<close>, once assigned, is in \<open>style_opacity\<close>. \<open>toast_container\<close> lists the
  children of the element with id \<open>toast-container\<close>, and is \<open>None\<close> while the document
  has no such element. A timer is its identifier, its delay and what it does when it
  fires.
\<close>

datatype task =
    FadeIn nat
  | Dismiss
  | Detach nat

record page =
  doc :: dom
  toastItems :: "nat \<rightharpoonup> nat"
  style_opacity :: "nat \<rightharpoonup> string"
  toast_container :: "nat list option"
  has_body :: bool
  timers :: "(nat \<times> nat \<times> task) list"
  next_timer :: nat

text \<open>\<open>setTimeout\<close> registers the task and returns a fresh identifier.\<close>

definition setTimeout :: "task \<Rightarrow> nat \<Rightarrow> page \<Rightarrow> nat \<times> page" where
  "setTimeout t delay s =
     (next_timer s,
      s\<lparr>timers := timers s @ [(next_timer s, delay, t)], next_timer := Suc (next_timer s)\<rparr>)"

text \<open>Lines 129 to 136. An entry of the registry is a node, so \<open>!item\<close> is its absence;
  \<open>tid\<close> is the source's \<open>id\<close>.\<close>

definition removeToast :: "nat \<Rightarrow> page \<Rightarrow> page" where
  "removeToast tid s =
     (case toastItems s tid of
        None \<Rightarrow> s
      | Some item \<Rightarrow>
          (let s1 = s\<lparr>style_opacity := (style_opacity s)(item \<mapsto> ''0'')\<rparr>;
               s2 = snd (setTimeout (Detach item) 300 s1)
           in s2\<lparr>toastItems := (toastItems s2)(tid := None)\<rparr>))"

text \<open>
  What a timer does when it fires: the fade-in of line 162, the auto-dismiss of line 167
  (\<open>removeToast\<close> of the timer's own identifier) and \<open>item.remove()\<close> of line 134.
\<close>

definition fire :: "nat \<times> nat \<times> task \<Rightarrow> page \<Rightarrow> page" where
  "fire t s =
     (case snd (snd t) of
        FadeIn item \<Rightarrow> s\<lparr>style_opacity := (style_opacity s)(item \<mapsto> ''1'')\<rparr>
      | Dismiss \<Rightarrow> removeToast (fst t) s
      | Detach item \<Rightarrow> s\<lparr>toast_container := map_option (removeAll item) (toast_container s)\<rparr>)"

text \<open>
  Lines 145 to 170. Without a \<open>document.body\<close> the container cannot be attached, and
  \<open>appendChild(null)\<close> is a TypeError; both leave \<open>toast\<close> as exceptions.
\<close>

definition toast :: "browser \<Rightarrow> jsval \<Rightarrow> jsval \<Rightarrow> page \<Rightarrow> (exn + nat) \<times> page" where
  "toast B message forLong s =
     (case (case toast_container s of
              Some ch \<Rightarrow> Inr s
            | None \<Rightarrow>
                (case document_createElement B (JStr ''div'') of
                   Inl x \<Rightarrow> Inl x
                 | Inr name \<Rightarrow>
                     if has_body s then Inr (s\<lparr>toast_container := Some []\<rparr>)
                     else Inl TypeError)) of
        Inl x \<Rightarrow> (Inl x, s)
      | Inr s1 \<Rightarrow>
     (case createElement B
             (JObj [(''tag'', JStr ''div''), (''class'', JStr ''toast-message''),
                    (''content'', JArr [JObj [(''tag'', JStr ''span''), (''text'', message)]] [])])
             JUndefined (doc s1) of
        (Inl x, d) \<Rightarrow> (Inl x, s1\<lparr>doc := d\<rparr>)
      | (Inr item, d) \<Rightarrow>
     (case item of
        JElem r \<Rightarrow>
          (let s2 = s1\<lparr>doc := d,
                       toast_container :=
                         map_option (\<lambda>ch. removeAll r ch @ [r]) (toast_container s1)\<rparr>;
               s3 = snd (setTimeout (FadeIn r) 10 s2);
               timeout = (if truthy forLong then 6000 else 3000);
               (tid, s4) = setTimeout Dismiss timeout s3
           in (Inr tid, s4\<lparr>toastItems := (toastItems s4)(tid \<mapsto> r)\<rparr>))
      | _ \<Rightarrow> (Inl TypeError, s1\<lparr>doc := d\<rparr>))))"

section \<open>The request wrapper\<close>

text \<open>
  A promise is settled one way or the other. The values \<open>JSON.parse\<close> can produce are
  the JSON values, an object being the list of its members as parsed (keys distinct);
  \<open>of_json\<close> is the JavaScript value a parse gives.
\<close>

datatype 'a promise = Resolved 'a | Rejected exn

datatype json =
    JsonNull
  | JsonBool bool
  | JsonNum int
  | JsonStr string
  | JsonArr "json list"
  | JsonObj "(string \<times> json) list"

fun of_json :: "json \<Rightarrow> jsval" where
  "of_json JsonNull = JNull"
| "of_json (JsonBool b) = JBool b"
| "of_json (JsonNum n) = JNum n"
| "of_json (JsonStr s) = JStr s"
| "of_json (JsonArr xs) = JArr (map of_json xs) []"
| "of_json (JsonObj ps) = JObj (map (\<lambda>kv. (fst kv, of_json (snd kv))) ps)"

text \<open>
  Assigning a property \<open>p.k = v\<close>. On \<open>undefined\<close> or \<open>null\<close> it is a TypeError; on a
  primitive it is ignored (the file is a classic script, not in strict mode).
  Properties assigned to functions and nodes are not represented; no parse yields one.
\<close>

fun set_prop :: "jsval \<Rightarrow> string \<Rightarrow> jsval \<Rightarrow> exn + jsval" where
  "set_prop JUndefined k v = Inl TypeError"
| "set_prop JNull k v = Inl TypeError"
| "set_prop (JObj ps) k v = Inr (JObj (AList.update k v ps))"
| "set_prop (JArr xs ps) k v = Inr (JArr xs (AList.update k v ps))"
| "set_prop p k v = Inr p"

text \<open>
  A response of the transport: its \<open>ok\<close> flag, its status and what parsing its body as
  JSON gives (an exception when the body is not JSON). A response value is one of these,
  with the flag that its body was read already, or the object literal of
  \<open>asFetchResponse\<close>, with its \<open>ok\<close>, its \<open>status\<close> and the problem its \<open>json\<close> closes over.
\<close>

record native =
  resp_ok :: bool
  resp_status :: nat
  parsed :: "exn + json"

datatype response =
    Native native (bodyUsed: bool)
  | Literal bool jsval jsval

fun ok_of :: "response \<Rightarrow> bool" where
  "ok_of (Native n used) = resp_ok n"
| "ok_of (Literal b st p) = b"

fun status_of :: "response \<Rightarrow> jsval" where
  "status_of (Native n used) = JNum (int (resp_status n))"
| "status_of (Literal b st p) = st"

text \<open>
  \<open>response.json()\<close>: the promise it returns and the response afterwards. The body of a
  native response is a stream that can be read once; the literal's \<open>json\<close> is
  \<open>() => Promise.resolve(problem)\<close>.
\<close>

fun json_of :: "response \<Rightarrow> jsval promise \<times> response" where
  "json_of (Literal b st p) = (Resolved p, Literal b st p)"
| "json_of (Native n used) =
     (if used then (Rejected TypeError, Native n used)
      else (case parsed n of
              Inl x \<Rightarrow> (Rejected x, Native n True)
            | Inr j \<Rightarrow> (Resolved (of_json j), Native n True)))"

text \<open>Calling \<open>json()\<close> a number of times in a row: the outcomes, and the response after.\<close>

fun json_times :: "nat \<Rightarrow> response \<Rightarrow> jsval promise list \<times> response" where
  "json_times 0 r = ([], r)"
| "json_times (Suc n) r =
     (case json_of r of (p, r') \<Rightarrow> (case json_times n r' of (ps, r'') \<Rightarrow> (p # ps, r'')))"

text \<open>
  The network and the serializer are parameters: \<open>JSON_stringify\<close> gives the text (or
  \<open>undefined\<close>) or the exception raised; \<open>fetch\<close> gives the response or the rejection of
  its promise.
\<close>

record init =
  init_method :: "jsval option"
  init_body :: "jsval option"
  init_headers :: "(string \<times> string) list"

record net =
  JSON_stringify :: "jsval \<Rightarrow> exn + jsval"
  fetch :: "jsval \<Rightarrow> init \<Rightarrow> native promise"

text \<open>Lines 69 to 75.\<close>

definition asFetchResponse :: "jsval \<Rightarrow> exn + response" where
  "asFetchResponse problem =
     (case get_prop problem ''status'' of
        Inl x \<Rightarrow> Inl x
      | Inr st \<Rightarrow> Inr (Literal False st problem))"

text \<open>Lines 48 to 56: the handler of \<open>then\<close> in \<open>getProblemDetail\<close>.\<close>

definition on_problem :: "nat \<Rightarrow> jsval \<Rightarrow> exn + response" where
  "on_problem status problem =
     (case get_prop problem ''status'' of
        Inl x \<Rightarrow> Inl x
      | Inr st \<Rightarrow>
     (case (if \<not> truthy st then set_prop problem ''status'' (JNum (int status)) else Inr problem) of
        Inl x \<Rightarrow> Inl x
      | Inr p1 \<Rightarrow>
     (case get_prop p1 ''detail'' of
        Inl x \<Rightarrow> Inl x
      | Inr d1 \<Rightarrow>
     (case (if \<not> truthy d1
            then (case get_prop p1 ''message'' of
                    Inl x \<Rightarrow> Inl x
                  | Inr m \<Rightarrow> set_prop p1 ''detail'' m)
            else Inr p1) of
        Inl x \<Rightarrow> Inl x
      | Inr p2 \<Rightarrow>
     (case get_prop p2 ''detail'' of
        Inl x \<Rightarrow> Inl x
      | Inr d2 \<Rightarrow>
     (case (if \<not> truthy d2
            then set_prop p2 ''detail'' (JStr (''An error occurred: '' @ dec status))
            else Inr p2) of
        Inl x \<Rightarrow> Inl x
      | Inr p3 \<Rightarrow> asFetchResponse p3))))))"

text \<open>Lines 57 to 62: the handler of \<open>catch\<close> in \<open>getProblemDetail\<close>.\<close>

definition on_problem_error :: "nat \<Rightarrow> exn \<Rightarrow> console \<Rightarrow> (exn + response) \<times> console" where
  "on_problem_error status x c =
     (asFetchResponse
        (JObj [(''status'', JNum (int status)),
               (''detail'', JStr (''An error occurred: '' @ dec status))]),
      c @ [LogError x])"

text \<open>
  Lines 45 to 63, for the response \<open>fetch\<close> has just resolved to, its body unread. The
  promise is rejected only if the \<open>catch\<close> handler itself raises.
\<close>

definition getProblemDetail :: "native \<Rightarrow> console \<Rightarrow> response promise \<times> console" where
  "getProblemDetail response c =
     (let status = resp_status response in
      case (case fst (json_of (Native response False)) of
              Rejected x \<Rightarrow> Inl x
            | Resolved problem \<Rightarrow> on_problem status problem) of
        Inr r \<Rightarrow> (Resolved r, c)
      | Inl x \<Rightarrow>
          (case on_problem_error status x c of
             (Inl y, c') \<Rightarrow> (Rejected y, c')
           | (Inr r, c') \<Rightarrow> (Resolved r, c')))"

text \<open>Lines 11 to 23: the \<open>init\<close> object handed to \<open>fetch\<close>.\<close>

definition make_init :: "net \<Rightarrow> jsval \<Rightarrow> jsval \<Rightarrow> jsval \<Rightarrow> exn + init" where
  "make_init N method payload formData =
     (let i0 = \<lparr>init_method = None, init_body = None, init_headers = []\<rparr>;
          i1 = (if truthy method then i0\<lparr>init_method := Some method\<rparr> else i0)
      in case (if truthy payload
               then (case JSON_stringify N payload of
                       Inl x \<Rightarrow> Inl x
                     | Inr serialized \<Rightarrow>
                         Inr (i1\<lparr>init_body := Some serialized,
                                 init_headers := AList.update ''Content-Type'' ''application/json''
                                                   (init_headers i1)\<rparr>))
               else Inr i1) of
           Inl x \<Rightarrow> Inl x
         | Inr i2 \<Rightarrow> Inr (if truthy formData then i2\<lparr>init_body := Some formData\<rparr> else i2))"

text \<open>Lines 32 to 37: the handler of \<open>catch\<close> in \<open>_fetch\<close>.\<close>

definition on_fetch_error :: "exn \<Rightarrow> console \<Rightarrow> (exn + response) \<times> console" where
  "on_fetch_error x c =
     (asFetchResponse
        (JObj [(''status'', JNum 0), (''detail'', JStr ''Please check your internet connection'')]),
      c @ [LogError x])"

text \<open>
  Lines 26 to 37: the handlers chained to the promise \<open>fetch\<close> returned.
\<close>

definition handlers :: "native promise \<Rightarrow> console \<Rightarrow> response promise \<times> console" where
  "handlers fetched c =
     (case (case fetched of
              Rejected x \<Rightarrow> (Rejected x, c)
            | Resolved response \<Rightarrow>
                if resp_ok response then (Resolved (Native response False), c)
                else getProblemDetail response c) of
        (Resolved r, c1) \<Rightarrow> (Resolved r, c1)
      | (Rejected x, c1) \<Rightarrow>
          (case on_fetch_error x c1 of
             (Inl y, c2) \<Rightarrow> (Rejected y, c2)
           | (Inr r, c2) \<Rightarrow> (Resolved r, c2)))"

text \<open>
  \<open>_fetch\<close>, lines 10 to 38 (written \<open>spart_fetch\<close>, a name cannot start with an
  underscore here): the request \<open>fetch\<close> is called with is the endpoint and the \<open>init\<close>
  object. \<open>Inl\<close> is an exception raised before any promise exists.
\<close>

definition spart_fetch ::
  "net \<Rightarrow> jsval \<Rightarrow> jsval \<Rightarrow> jsval \<Rightarrow> jsval \<Rightarrow> console \<Rightarrow> (exn + response promise) \<times> console" where
  "spart_fetch N endpoint method payload formData c =
     (case make_init N method payload formData of
        Inl x \<Rightarrow> (Inl x, c)
      | Inr i \<Rightarrow> (case handlers (fetch N endpoint i) c of (p, c') \<Rightarrow> (Inr p, c')))"


section \<open>The pre-built nodes of a description, and what a call leaves alone\<close>

text \<open>
  The pre-built nodes a description names where the builder looks, in the order it meets
  them: the node in \<open>element\<close>, which the builder returns at once; otherwise, for a
  description without markup, those its content names, at any depth.
\<close>

function prebuilt :: "jsval \<Rightarrow> nat list" where
  "prebuilt info =
     (if \<not> truthy info then []
      else (case get_prop info ''element'' of
              Inl x \<Rightarrow> []
            | Inr el \<Rightarrow>
                if truthy el then (case el of JElem r \<Rightarrow> [r] | _ \<Rightarrow> [])
                else (case get_prop info ''svg'' of
                        Inl x \<Rightarrow> []
                      | Inr svg \<Rightarrow>
                          if truthy svg then []
                          else (case get_prop info ''content'' of
                                  Inr (JArr items ps) \<Rightarrow> concat (map prebuilt items)
                                | _ \<Rightarrow> []))))"
  by pat_completeness auto
termination
proof -
  have in_object: "size v < Suc (size_list (size_prod (\<lambda>_. 0) size) ps)"
    if "map_of ps k = Some v" for ps :: "(string \<times> jsval) list" and k v
    using that by (induction ps) (auto split: if_splits)
  have items: "size_list size items < size info"
    if "get_prop info k = Inr (JArr items ps)" for info k items ps
  proof (cases info)
    case (JObj kvs)
    with that have "map_of kvs k = Some (JArr items ps)"
      by (auto split: option.splits)
    from in_object [OF this] JObj show ?thesis by simp
  next
    case (JArr xs kvs)
    with that have "map_of kvs k = Some (JArr items ps)"
      by (auto split: option.splits)
    from in_object [OF this] JArr show ?thesis by simp
  qed (use that in \<open>auto split: if_splits\<close>)
  have item: "size item < size info"
    if "get_prop info k = Inr (JArr items ps)" "item \<in> set items" for info k items ps item
    using items [OF that(1)] size_list_estimation' [OF that(2), of "size item" size] by simp
  show ?thesis
    by (relation "measure size") (auto dest: item)
qed

declare prebuilt.simps [simp del]

text \<open>Those the content of a description names.\<close>

definition content_prebuilt :: "jsval \<Rightarrow> nat list" where
  "content_prebuilt info =
     (case get_prop info ''content'' of
        Inr (JArr items ps) \<Rightarrow> concat (map prebuilt items)
      | _ \<Rightarrow> [])"

text \<open>
  Two documents between which the nodes that existed in the first kept everything but,
  possibly, their children (\<open>grows\<close>); and between which every node that existed, is not
  in \<open>X\<close> and had only children that existed gained no child and lost none but nodes of
  \<open>P\<close> (\<open>moves\<close>).
\<close>

definition same_fields :: "node \<Rightarrow> node \<Rightarrow> bool" where
  "same_fields m n \<longleftrightarrow>
     tagName m = tagName n \<and> innerText m = innerText n \<and> innerHTML m = innerHTML n \<and>
     attributes m = attributes n \<and> properties m = properties n \<and> listeners m = listeners n"

definition grows :: "dom \<Rightarrow> dom \<Rightarrow> bool" where
  "grows d d' \<longleftrightarrow>
     next_ref d \<le> next_ref d' \<and> (\<forall>q < next_ref d. same_fields (nodes d q) (nodes d' q))"

definition moves :: "nat set \<Rightarrow> nat set \<Rightarrow> dom \<Rightarrow> dom \<Rightarrow> bool" where
  "moves X P d d' \<longleftrightarrow>
     (\<forall>q < next_ref d. q \<notin> X \<longrightarrow> set (childNodes (nodes d q)) \<subseteq> {..<next_ref d} \<longrightarrow>
        set (childNodes (nodes d' q)) \<subseteq> set (childNodes (nodes d q)) \<and>
        filter (\<lambda>c. c \<notin> P) (childNodes (nodes d' q)) =
          filter (\<lambda>c. c \<notin> P) (childNodes (nodes d q)))"

text \<open>
  A step that acts on the node \<open>r\<close> only, and not on its children: nothing is created, and
  every other node is as it was.
\<close>

definition acts_on :: "nat \<Rightarrow> dom \<Rightarrow> dom \<Rightarrow> bool" where
  "acts_on r d d' \<longleftrightarrow>
     next_ref d' = next_ref d \<and> (\<forall>q. q \<noteq> r \<longrightarrow> nodes d' q = nodes d q) \<and>
     childNodes (nodes d' r) = childNodes (nodes d r)"

text \<open>
  What is known of a call whatever it is given. A node that \<open>createElement\<close> returns for
  \<open>info\<close> did not exist before the call or is a pre-built node of \<open>info\<close> (\<open>yields\<close>). A
  call of \<open>createElement\<close> is \<open>framed\<close> when the document only grows, the nodes that
  existed lose no child but pre-built nodes of \<open>info\<close>, and the result is such a node; the
  \<open>try\<close> block likewise (\<open>built_framed\<close>), its result being new; and the loop over the
  items under the node \<open>p\<close> likewise (\<open>loop_framed\<close>), for the nodes other than \<open>p\<close>.
\<close>

definition yields :: "jsval \<Rightarrow> dom \<Rightarrow> dom \<Rightarrow> exn + jsval \<Rightarrow> bool" where
  "yields info d d' res \<longleftrightarrow>
     (\<forall>ch. res = Inr (JElem ch) \<longrightarrow>
        (next_ref d \<le> ch \<and> ch < next_ref d') \<or> ch \<in> set (prebuilt info))"

definition framed :: "jsval \<Rightarrow> dom \<Rightarrow> (exn + jsval) \<times> dom \<Rightarrow> bool" where
  "framed info d out \<longleftrightarrow>
     grows d (snd out) \<and> moves {} (set (prebuilt info)) d (snd out) \<and>
     yields info d (snd out) (fst out)"

definition built_framed :: "jsval \<Rightarrow> dom \<Rightarrow> (exn + jsval) \<times> dom \<Rightarrow> bool" where
  "built_framed info d out \<longleftrightarrow>
     grows d (snd out) \<and> moves {} (set (content_prebuilt info)) d (snd out) \<and>
     (\<forall>ch. fst out = Inr (JElem ch) \<longrightarrow> next_ref d \<le> ch \<and> ch < next_ref (snd out))"

definition loop_framed :: "jsval list \<Rightarrow> nat \<Rightarrow> dom \<Rightarrow> exn option \<times> dom \<Rightarrow> bool" where
  "loop_framed items p d out \<longleftrightarrow>
     grows d (snd out) \<and> moves {p} (set (concat (map prebuilt items))) d (snd out)"


section \<open>A browser and a network to run the code in\<close>

definition html_names :: "(string \<times> string) list" where
  "html_names =
     [(''div'', ''DIV''), (''span'', ''SPAN''), (''ul'', ''UL''), (''ol'', ''OL''), (''li'', ''LI''),
      (''select'', ''SELECT''), (''option'', ''OPTION''), (''p'', ''P''),
      (''SPAN'', ''SPAN''), (''LI'', ''LI''), (''OPTION'', ''OPTION'')]"

text \<open>
  A browser that knows a few element names, rejects every other tag and the empty
  attribute name, parses one string as SVG, and in which function 0 returns and every
  other function raises.
\<close>

definition test_browser :: browser where
  "test_browser =
     \<lparr>document_createElement =
        (\<lambda>tag. case tag of
                 JStr s \<Rightarrow> (case map_of html_names s of
                              Some name \<Rightarrow> Inr name
                            | None \<Rightarrow> Inl (DOMException ''InvalidCharacterError''))
               | _ \<Rightarrow> Inl (DOMException ''InvalidCharacterError'')),
      parseFromString =
        (\<lambda>s. if s = JStr ''<svg xmlns=\"http://www.w3.org/2000/svg\"/>''
              then Inr ''svg'' else Inr ''parsererror''),
      raises =
        (\<lambda>d call. case call of
                  SetAttribute e k v \<Rightarrow>
                    if k = [] then Some (DOMException ''InvalidCharacterError'') else None
                | _ \<Rightarrow> None),
      invoke = (\<lambda>f args. if f = 0 then None else Some (Error ''raised by the callback''))\<rparr>"

text \<open>
  A document without nodes, and one whose only node, under reference 0, is a \<open>DIV\<close>
  that some earlier code created.
\<close>

definition blank :: "string \<Rightarrow> node" where
  "blank name =
     \<lparr>tagName = name, innerText = None, innerHTML = None, attributes = [],
      properties = [], childNodes = [], listeners = []\<rparr>"

definition empty_dom :: dom where
  "empty_dom = \<lparr>nodes = (\<lambda>r. blank []), next_ref = 0, logged = []\<rparr>"

definition div_dom :: dom where
  "div_dom = \<lparr>nodes = (\<lambda>r. blank [])(0 := blank ''DIV''), next_ref = 1, logged = []\<rparr>"

text \<open>
  A network with one endpoint that cannot be reached, one that answers 404 with the body
  \<open>{"message":"not found"}\<close>, one that answers 500 with a body that is not JSON, one that
  answers 500 with the body \<open>{"status":0,"detail":""}\<close>, one that answers 200 with a
  description of the request it received (its body, if that is a text, and its headers),
  and that answers 200 with \<open>null\<close> elsewhere; its serializer knows the object \<open>{a:1}\<close>.
\<close>

definition test_net :: net where
  "test_net =
     \<lparr>JSON_stringify =
        (\<lambda>v. if v = JObj [(''a'', JNum 1)] then Inr (JStr ''{\"a\":1}'') else Inl TypeError),
      fetch =
        (\<lambda>endpoint i.
           if endpoint = JStr ''/unreachable'' then Rejected TypeError
           else if endpoint = JStr ''/missing''
             then Resolved \<lparr>resp_ok = False, resp_status = 404,
                            parsed = Inr (JsonObj [(''message'', JsonStr ''not found'')])\<rparr>
           else if endpoint = JStr ''/broken''
             then Resolved \<lparr>resp_ok = False, resp_status = 500,
                            parsed = Inl (Error ''SyntaxError'')\<rparr>
           else if endpoint = JStr ''/falsy''
             then Resolved \<lparr>resp_ok = False, resp_status = 500,
                            parsed = Inr (JsonObj [(''status'', JsonNum 0), (''detail'', JsonStr [])])\<rparr>
           else if endpoint = JStr ''/echo''
             then Resolved \<lparr>resp_ok = True, resp_status = 200,
                            parsed = Inr (JsonObj
                              [(''body'', case init_body i of
                                            Some (JStr t) \<Rightarrow> JsonStr t
                                          | Some v \<Rightarrow> JsonStr ''(not a text)''
                                          | None \<Rightarrow> JsonNull),
                               (''headers'', JsonObj (map (\<lambda>h. (fst h, JsonStr (snd h)))
                                                       (init_headers i)))])\<rparr>
           else Resolved \<lparr>resp_ok = True, resp_status = 200, parsed = Inr JsonNull\<rparr>)\<rparr>"

definition empty_page :: page where
  "empty_page =
     \<lparr>doc = empty_dom, toastItems = Map.empty, style_opacity = Map.empty,
      toast_container = None, has_body = True, timers = [], next_timer = 1\<rparr>"

text \<open>A description with every kind of field.\<close>

definition sample_info :: jsval where
  "sample_info =
     JObj [(''tag'', JStr ''div''), (''id'', JStr ''x''), (''class'', JNull),
           (''title'', JUndefined), (''text'', JStr ''t''), (''data-n'', JNum 0),
           (''props'', JObj [(''value'', JStr ''v'')]), (''content'', JArr [] []),
           (''events'', JObj [(''click'', JFun 3)]), (''callback'', JFun 0)]"




text \<open>The page after one toast was shown on the empty page.\<close>

definition shown :: page where
  "shown =
     \<lparr>doc = snd (createElement test_browser
             (JObj [(''tag'', JStr ''div''), (''class'', JStr ''toast-message''),
                    (''content'', JArr [JObj [(''tag'', JStr ''span''), (''text'', JStr ''saved'')]] [])])
             JUndefined empty_dom),
      toastItems = [2 \<mapsto> 0], style_opacity = Map.empty, toast_container = Some [0],
      has_body = True, timers = [(1, 10, FadeIn 0), (2, 3000, Dismiss)], next_timer = 3\<rparr>"

section \<open>Facts used throughout\<close>

lemmas builder_defs =
  createElement.simps try_block.simps createSVGElement_def determine_tag_def get_tagName_def
  new_element_def create_def modify_def console_log_def move_to_def
  set_text_def set_html_def setAttribute_def setProperty_def set_properties_def
  appendChild_def addEventListener_def add_event_listeners_def
  run_callback_def excluded_keys_def test_browser_def html_names_def blank_def
  empty_dom_def div_dom_def

lemmas fetch_defs =
  spart_fetch_def handlers_def make_init_def getProblemDetail_def on_problem_def on_problem_error_def
  on_fetch_error_def asFetchResponse_def test_net_def Let_def

lemma get_prop_truthy: "truthy v \<Longrightarrow> \<exists>w. get_prop v k = Inr w"
  by (cases v) auto

lemma try_catch_returns:
  "\<exists>v d'. try_catch r = (Inr v, d') \<and> (v = JNull \<or> fst r = Inr v)"
  by (cases r rule: try_catch.cases) auto

lemma createSVGElement_returns:
  "\<exists>v d'. createSVGElement B s d = (Inr v, d') \<and> (v = JNull \<or> (\<exists>r. v = JElem r))"
  unfolding createSVGElement_def
  by (auto split: sum.splits prod.splits)

lemma try_block_node:
  "try_block B info parent d = (Inr v, d') \<Longrightarrow> \<exists>r. v = JElem r"
  by (auto simp: try_block.simps split: sum.splits prod.splits option.splits)

lemma createElement_returns:
  "\<exists>v d'. createElement B info parent d = (Inr v, d') \<and>
     (v = JNull \<or> (\<exists>r. v = JElem r) \<or> (truthy v \<and> get_prop info ''element'' = Inr v))"
proof (cases "truthy info")
  case False
  then show ?thesis by (simp add: createElement.simps)
next
  case True
  obtain el where el: "get_prop info ''element'' = Inr el"
    using get_prop_truthy [OF True] by blast
  obtain svg where svg: "get_prop info ''svg'' = Inr svg"
    using get_prop_truthy [OF True] by blast
  show ?thesis
  proof (cases "truthy el")
    case True
    with \<open>truthy info\<close> el show ?thesis by (simp add: createElement.simps)
  next
    case nel: False
    show ?thesis
    proof (cases "truthy svg")
      case True
      with \<open>truthy info\<close> el svg nel createSVGElement_returns [of B svg d]
      show ?thesis by (auto simp: createElement.simps)
    next
      case False
      obtain v d' where t: "try_catch (try_block B info parent d) = (Inr v, d')"
        and v: "v = JNull \<or> fst (try_block B info parent d) = Inr v"
        using try_catch_returns by blast
      from v have "v = JNull \<or> (\<exists>r. v = JElem r)"
        using try_block_node [of B info parent d v "snd (try_block B info parent d)"]
        by (cases "try_block B info parent d") auto
      with \<open>truthy info\<close> el svg nel False t show ?thesis
        by (auto simp: createElement.simps)
    qed
  qed
qed

section \<open>The element builder never raises\<close>

text \<open>
  Claim C1. Whatever the description, the parent, the browser and the document,
  \<open>createElement\<close> returns: the value is \<open>null\<close>, a node, or the pre-built reference the
  description carries in \<open>element\<close>. An exception raised anywhere in the \<open>try\<close> block (tag
  determination, node creation, text and markup, attributes, properties, children,
  listeners, callback) is logged with \<open>console.error\<close> after what was logged before it,
  and the whole call returns \<open>null\<close>; so is a failure to parse the vector-graphics markup.
\<close>

theorem createElement_never_throws:
  "(\<exists>v d'. createElement B info parent d = (Inr v, d') \<and>
       (v = JNull \<or> (\<exists>r. v = JElem r) \<or> (truthy v \<and> get_prop info ''element'' = Inr v)))
   \<and> (truthy info \<and> get_prop info ''element'' = Inr el \<and> \<not> truthy el \<and>
        get_prop info ''svg'' = Inr svg \<and> \<not> truthy svg \<and>
        try_block B info parent d = (Inl x, d1)
        \<longrightarrow> createElement B info parent d = (Inr JNull, d1\<lparr>logged := logged d1 @ [LogError x]\<rparr>))
   \<and> (truthy info \<and> get_prop info ''element'' = Inr el \<and> \<not> truthy el \<and>
        get_prop info ''svg'' = Inr svg \<and> truthy svg \<and>
        (parseFromString B svg = Inl x \<or>
         (parseFromString B svg = Inr ''parsererror'' \<and> x = Error ''Error parsing SVG string''))
        \<longrightarrow> createElement B info parent d = (Inr JNull, d\<lparr>logged := logged d @ [LogError x]\<rparr>))"
proof (intro conjI impI)
  show "\<exists>v d'. createElement B info parent d = (Inr v, d') \<and>
       (v = JNull \<or> (\<exists>r. v = JElem r) \<or> (truthy v \<and> get_prop info ''element'' = Inr v))"
    by (rule createElement_returns)
next
  assume "truthy info \<and> get_prop info ''element'' = Inr el \<and> \<not> truthy el \<and>
        get_prop info ''svg'' = Inr svg \<and> \<not> truthy svg \<and>
        try_block B info parent d = (Inl x, d1)"
  then show "createElement B info parent d = (Inr JNull, d1\<lparr>logged := logged d1 @ [LogError x]\<rparr>)"
    by (simp add: createElement.simps console_log_def)
next
  assume "truthy info \<and> get_prop info ''element'' = Inr el \<and> \<not> truthy el \<and>
        get_prop info ''svg'' = Inr svg \<and> truthy svg \<and>
        (parseFromString B svg = Inl x \<or>
         (parseFromString B svg = Inr ''parsererror'' \<and> x = Error ''Error parsing SVG string''))"
  then show "createElement B info parent d = (Inr JNull, d\<lparr>logged := logged d @ [LogError x]\<rparr>)"
    by (auto simp: createElement.simps createSVGElement_def console_log_def)
qed

text \<open>
  A description whose callback is the number 5, and one whose markup does not parse:
  both calls return \<open>null\<close> with the error logged.
\<close>

theorem createElement_never_throws_witness:
  "try_block test_browser (JObj [(''tag'', JStr ''div''), (''callback'', JNum 5)]) JUndefined empty_dom
     = (Inl TypeError, snd (create ''DIV'' empty_dom))
   \<and> createElement test_browser (JObj [(''tag'', JStr ''div''), (''callback'', JNum 5)]) JUndefined empty_dom
     = (Inr JNull, snd (create ''DIV'' empty_dom)\<lparr>logged := [LogError TypeError]\<rparr>)
   \<and> parseFromString test_browser (JStr ''<svg'') = Inr ''parsererror''
   \<and> createElement test_browser (JObj [(''svg'', JStr ''<svg'')]) JUndefined empty_dom
     = (Inr JNull, empty_dom\<lparr>logged := [LogError (Error ''Error parsing SVG string'')]\<rparr>)"
proof -
  let ?i = "JObj [(''tag'', JStr ''div''), (''callback'', JNum 5)]"
  let ?j = "JObj [(''svg'', JStr ''<svg'')]"
  let ?d = "snd (create ''DIV'' empty_dom)"
  have t: "try_block test_browser ?i JUndefined empty_dom = (Inl TypeError, ?d)"
    by (simp add: builder_defs)
  have p: "parseFromString test_browser (JStr ''<svg'') = Inr ''parsererror''"
    by (simp add: test_browser_def)
  have "createElement test_browser ?i JUndefined empty_dom
          = (Inr JNull, ?d\<lparr>logged := logged ?d @ [LogError TypeError]\<rparr>)"
    using createElement_never_throws
      [where B = test_browser and info = ?i and parent = JUndefined and d = empty_dom
         and el = JUndefined and svg = JUndefined and x = TypeError and ?d1.0 = ?d] t
    by simp
  moreover
  have "createElement test_browser ?j JUndefined empty_dom
          = (Inr JNull, empty_dom\<lparr>logged := logged empty_dom @ [LogError (Error ''Error parsing SVG string'')]\<rparr>)"
    using createElement_never_throws
      [where B = test_browser and info = ?j and parent = JUndefined and d = empty_dom
         and el = JUndefined and svg = "JStr ''<svg''" and x = "Error ''Error parsing SVG string''"] p
    by simp
  ultimately show ?thesis using t p by (simp add: empty_dom_def create_def)
qed

section \<open>A description without a tag, built without a parent\<close>

text \<open>
  Claim C4. With no tag, no pre-built node and no markup, and the parent argument absent,
  line 44 reads \<open>tagName\<close> of \<open>undefined\<close>: the TypeError is caught, logged with
  \<open>console.error\<close>, and the call returns \<open>null\<close>. No warning is logged and no \<open>SPAN\<close> is
  returned. The same description under a \<open>DIV\<close> parent takes the branch of lines 49 to 52:
  the warning is logged and a \<open>SPAN\<close> is returned.
\<close>

theorem createElement_without_tag_and_parent:
  "createElement test_browser (JObj [(''text'', JStr ''hi'')]) JUndefined empty_dom
     = (Inr JNull, empty_dom\<lparr>logged := [LogError TypeError]\<rparr>)
   \<and> fst (createElement test_browser (JObj [(''text'', JStr ''hi'')]) (JElem 0) div_dom)
     = Inr (JElem 1)
   \<and> nodes (snd (createElement test_browser (JObj [(''text'', JStr ''hi'')]) (JElem 0) div_dom)) 1
     = \<lparr>tagName = ''SPAN'', innerText = Some (JStr ''hi''), innerHTML = None, attributes = [],
        properties = [], childNodes = [], listeners = []\<rparr>
   \<and> logged (snd (createElement test_browser (JObj [(''text'', JStr ''hi'')]) (JElem 0) div_dom))
     = [LogWarn ''No element tag specified in:'' (JObj [(''text'', JStr ''hi'')])]"
  by (simp add: builder_defs)

section \<open>What each step of the builder changes\<close>

lemma acts_on_refl: "acts_on r d d"
  by (simp add: acts_on_def)

lemma acts_on_trans: "acts_on r d d' \<Longrightarrow> acts_on r d' d'' \<Longrightarrow> acts_on r d d''"
  by (simp add: acts_on_def)

lemma acts_on_modify: "childNodes (f (nodes d r)) = childNodes (nodes d r) \<Longrightarrow> acts_on r d (modify r f d)"
  by (simp add: acts_on_def modify_def)

lemma set_text_acts: "set_text B info r d = (res, d') \<Longrightarrow> acts_on r d d'"
  by (auto simp: set_text_def acts_on_refl acts_on_modify split: sum.splits if_splits option.splits)

lemma set_html_acts: "set_html B info r d = (res, d') \<Longrightarrow> acts_on r d d'"
  by (auto simp: set_html_def acts_on_refl acts_on_modify split: sum.splits if_splits option.splits)

lemma setAttribute_acts: "setAttribute B k v r d = (res, d') \<Longrightarrow> acts_on r d d'"
  by (auto simp: setAttribute_def acts_on_refl acts_on_modify split: option.splits)

lemma set_attributes_acts: "set_attributes B kvs r d = (res, d') \<Longrightarrow> acts_on r d d'"
proof (induction kvs arbitrary: d)
  case Nil
  then show ?case by (simp add: acts_on_refl)
next
  case (Cons kv rest)
  obtain k v where kv: "kv = (k, v)" by (cases kv)
  show ?case
  proof (cases "v \<noteq> JUndefined \<and> v \<noteq> JNull \<and> k \<notin> set excluded_keys")
    case True
    obtain r1 d1 where s: "setAttribute B k v r d = (r1, d1)" by (cases "setAttribute B k v r d")
    show ?thesis
    proof (cases r1)
      case None
      with Cons.prems kv True s have "set_attributes B rest r d1 = (res, d')" by simp
      from Cons.IH [OF this] setAttribute_acts [OF s] show ?thesis by (rule acts_on_trans [rotated])
    next
      case (Some x)
      with Cons.prems kv True s setAttribute_acts [OF s] show ?thesis by simp
    qed
  next
    case False
    with Cons.prems kv have "set_attributes B rest r d = (res, d')" by (auto split: if_splits)
    then show ?thesis by (rule Cons.IH)
  qed
qed

lemma setProperty_acts: "setProperty B k v r d = (res, d') \<Longrightarrow> acts_on r d d'"
  by (auto simp: setProperty_def acts_on_refl acts_on_modify split: option.splits)

lemma assign_properties_acts: "assign_properties B kvs r d = (res, d') \<Longrightarrow> acts_on r d d'"
proof (induction kvs arbitrary: d)
  case Nil
  then show ?case by (simp add: acts_on_refl)
next
  case (Cons kv rest)
  obtain k v where kv: "kv = (k, v)" by (cases kv)
  show ?case
  proof (cases "v \<noteq> JUndefined \<and> v \<noteq> JNull")
    case True
    obtain r1 d1 where s: "setProperty B k v r d = (r1, d1)" by (cases "setProperty B k v r d")
    show ?thesis
    proof (cases r1)
      case None
      with Cons.prems kv True s have "assign_properties B rest r d1 = (res, d')" by simp
      from Cons.IH [OF this] setProperty_acts [OF s] show ?thesis by (rule acts_on_trans [rotated])
    next
      case (Some x)
      with Cons.prems kv True s setProperty_acts [OF s] show ?thesis by simp
    qed
  next
    case False
    with Cons.prems kv have "assign_properties B rest r d = (res, d')" by (auto split: if_splits)
    then show ?thesis by (rule Cons.IH)
  qed
qed

lemma set_properties_acts: "set_properties B info r d = (res, d') \<Longrightarrow> acts_on r d d'"
  by (auto simp: set_properties_def acts_on_refl split: sum.splits if_splits
           dest: assign_properties_acts)

lemma addEventListener_acts: "addEventListener B k v r d = (res, d') \<Longrightarrow> acts_on r d d'"
  by (auto simp: addEventListener_def acts_on_refl acts_on_modify split: option.splits)

lemma attach_listeners_acts: "attach_listeners B kvs r d = (res, d') \<Longrightarrow> acts_on r d d'"
proof (induction kvs arbitrary: d)
  case Nil
  then show ?case by (simp add: acts_on_refl)
next
  case (Cons kv rest)
  obtain k v where kv: "kv = (k, v)" by (cases kv)
  obtain r1 d1 where s: "addEventListener B k v r d = (r1, d1)" by (cases "addEventListener B k v r d")
  show ?case
  proof (cases r1)
    case None
    with Cons.prems kv s have "attach_listeners B rest r d1 = (res, d')" by simp
    from Cons.IH [OF this] addEventListener_acts [OF s] show ?thesis by (rule acts_on_trans [rotated])
  next
    case (Some x)
    with Cons.prems kv s addEventListener_acts [OF s] show ?thesis by simp
  qed
qed

lemma add_event_listeners_acts: "add_event_listeners B info r d = (res, d') \<Longrightarrow> acts_on r d d'"
  by (auto simp: add_event_listeners_def acts_on_refl split: sum.splits if_splits
           dest: attach_listeners_acts)

lemma run_callback_same: "run_callback B info r parent d = (res, d') \<Longrightarrow> d' = d"
  by (auto simp: run_callback_def split: sum.splits if_splits jsval.splits)

lemma determine_tag_same:
  "determine_tag info parent d = (res, d') \<Longrightarrow> next_ref d' = next_ref d \<and> nodes d' = nodes d"
  by (auto simp: determine_tag_def console_log_def split: sum.splits if_splits)

lemma new_element_fresh:
  "new_element B tag d = (Inr r, d') \<Longrightarrow>
     r = next_ref d \<and> next_ref d' = Suc (next_ref d) \<and> (\<forall>q. q \<noteq> r \<longrightarrow> nodes d' q = nodes d q) \<and>
     childNodes (nodes d' r) = [] \<and> attributes (nodes d' r) = []"
  by (auto simp: new_element_def create_def split: sum.splits)

lemma new_element_failed: "new_element B tag d = (Inl x, d') \<Longrightarrow> d' = d"
  by (auto simp: new_element_def create_def split: sum.splits)

lemma grows_refl: "grows d d"
  by (simp add: grows_def same_fields_def)

lemma grows_trans: "grows d d' \<Longrightarrow> grows d' d'' \<Longrightarrow> grows d d''"
  by (auto simp: grows_def same_fields_def)

lemma moves_refl: "moves X P d d"
  by (simp add: moves_def)

lemma filter_more:
  assumes "filter (\<lambda>c. c \<notin> P) xs = filter (\<lambda>c. c \<notin> P) ys" and "P \<subseteq> P'"
  shows "filter (\<lambda>c. c \<notin> P') xs = filter (\<lambda>c. c \<notin> P') ys"
proof -
  have "filter (\<lambda>c. c \<notin> P') zs = filter (\<lambda>c. c \<notin> P') (filter (\<lambda>c. c \<notin> P) zs)" for zs
    using assms(2) by (auto simp: filter_filter intro: filter_cong)
  with assms(1) show ?thesis by metis
qed

lemma moves_mono:
  assumes "moves X P d d'" "X \<subseteq> X'" "P \<subseteq> P'"
  shows "moves X' P' d d'"
  unfolding moves_def
proof (intro allI impI)
  fix q assume q: "q < next_ref d" "q \<notin> X'" "set (childNodes (nodes d q)) \<subseteq> {..<next_ref d}"
  with assms(2) have "q \<notin> X" by auto
  with assms(1) q have 1: "set (childNodes (nodes d' q)) \<subseteq> set (childNodes (nodes d q))"
    "filter (\<lambda>c. c \<notin> P) (childNodes (nodes d' q)) = filter (\<lambda>c. c \<notin> P) (childNodes (nodes d q))"
    by (simp_all add: moves_def)
  from filter_more [OF 1(2) assms(3)] 1(1)
  show "set (childNodes (nodes d' q)) \<subseteq> set (childNodes (nodes d q)) \<and>
        filter (\<lambda>c. c \<notin> P') (childNodes (nodes d' q)) =
          filter (\<lambda>c. c \<notin> P') (childNodes (nodes d q))"
    by simp
qed

lemma moves_trans:
  assumes "moves X P d d'" "moves X' P d' d''" "next_ref d \<le> next_ref d'"
    and "\<forall>q < next_ref d. q \<in> X' \<longrightarrow> q \<in> X"
  shows "moves X P d d''"
  unfolding moves_def
proof (intro allI impI)
  fix q assume q: "q < next_ref d" "q \<notin> X" "set (childNodes (nodes d q)) \<subseteq> {..<next_ref d}"
  with assms(1) have 1: "set (childNodes (nodes d' q)) \<subseteq> set (childNodes (nodes d q))"
    "filter (\<lambda>c. c \<notin> P) (childNodes (nodes d' q)) = filter (\<lambda>c. c \<notin> P) (childNodes (nodes d q))"
    by (simp_all add: moves_def)
  from q assms(3,4) 1(1) have "q < next_ref d'" "q \<notin> X'"
    "set (childNodes (nodes d' q)) \<subseteq> {..<next_ref d'}"
    by auto
  with assms(2) have 2: "set (childNodes (nodes d'' q)) \<subseteq> set (childNodes (nodes d' q))"
    "filter (\<lambda>c. c \<notin> P) (childNodes (nodes d'' q)) = filter (\<lambda>c. c \<notin> P) (childNodes (nodes d' q))"
    by (simp_all add: moves_def)
  from 1 2 show "set (childNodes (nodes d'' q)) \<subseteq> set (childNodes (nodes d q)) \<and>
        filter (\<lambda>c. c \<notin> P) (childNodes (nodes d'' q)) =
          filter (\<lambda>c. c \<notin> P) (childNodes (nodes d q))"
    by auto
qed


text \<open>What acts on a node that did not exist leaves the nodes that existed alone.\<close>

lemma acts_on_new:
  "acts_on r d d' \<Longrightarrow> next_ref d0 \<le> r \<Longrightarrow> next_ref d0 \<le> next_ref d \<Longrightarrow>
     (\<forall>q < next_ref d0. nodes d' q = nodes d q)"
  by (auto simp: acts_on_def)


lemma appendChild_facts:
  assumes "appendChild B p child d = (res, d')"
  shows "next_ref d' = next_ref d" and "same_fields (nodes d q) (nodes d' q)"
    and "res = None \<Longrightarrow> \<exists>ch. child = JElem ch \<and> d' = move_to p ch d"
    and "res \<noteq> None \<Longrightarrow> d' = d"
  using assms
  by (auto simp: appendChild_def move_to_def same_fields_def split: jsval.splits option.splits)

section \<open>What a call leaves alone\<close>

lemma grows_same: "grows d d' \<Longrightarrow> nodes d'' = nodes d' \<Longrightarrow> next_ref d'' = next_ref d' \<Longrightarrow> grows d d''"
  by (simp add: grows_def)

lemma moves_same: "moves X P d d' \<Longrightarrow> nodes d'' = nodes d' \<Longrightarrow> moves X P d d''"
  by (simp add: moves_def)

lemma grows_acts:
  "grows d dk \<Longrightarrow> acts_on r dk dk' \<Longrightarrow> next_ref d \<le> r \<Longrightarrow> grows d dk'"
  by (auto simp: grows_def acts_on_def)

lemma moves_acts:
  "moves X P d dk \<Longrightarrow> acts_on r dk dk' \<Longrightarrow> next_ref d \<le> r \<Longrightarrow> moves X P d dk'"
  by (auto simp: moves_def acts_on_def)

lemma filter_removeAll:
  "ch \<in> P \<Longrightarrow> filter (\<lambda>c. c \<notin> P) (removeAll ch xs) = filter (\<lambda>c. c \<notin> P) xs"
  by (induction xs) auto

lemma moves_move_to:
  assumes "moves X P d d1" "next_ref d \<le> ch \<or> ch \<in> P" "p \<in> X"
  shows "moves X P d (move_to p ch d1)"
  unfolding moves_def
proof (intro allI impI)
  fix q assume q: "q < next_ref d" "q \<notin> X" "set (childNodes (nodes d q)) \<subseteq> {..<next_ref d}"
  with assms(1) have 1: "set (childNodes (nodes d1 q)) \<subseteq> set (childNodes (nodes d q))"
    "filter (\<lambda>c. c \<notin> P) (childNodes (nodes d1 q)) = filter (\<lambda>c. c \<notin> P) (childNodes (nodes d q))"
    by (simp_all add: moves_def)
  from q(2) assms(3) have "q \<noteq> p" by auto
  then have m: "childNodes (nodes (move_to p ch d1) q) = removeAll ch (childNodes (nodes d1 q))"
    by (simp add: move_to_def)
  have "filter (\<lambda>c. c \<notin> P) (removeAll ch (childNodes (nodes d1 q))) =
        filter (\<lambda>c. c \<notin> P) (childNodes (nodes d1 q))"
  proof (cases "ch \<in> P")
    case True
    then show ?thesis by (rule filter_removeAll)
  next
    case False
    with assms(2) have "next_ref d \<le> ch" by simp
    with q(3) 1(1) have "ch \<notin> set (childNodes (nodes d1 q))" by auto
    then show ?thesis by simp
  qed
  with m 1 show "set (childNodes (nodes (move_to p ch d1) q)) \<subseteq> set (childNodes (nodes d q)) \<and>
        filter (\<lambda>c. c \<notin> P) (childNodes (nodes (move_to p ch d1) q)) =
          filter (\<lambda>c. c \<notin> P) (childNodes (nodes d q))"
    by auto
qed

lemma prebuilt_element:
  "truthy info \<Longrightarrow> get_prop info ''element'' = Inr (JElem ch) \<Longrightarrow> prebuilt info = [ch]"
  by (subst prebuilt.simps) simp

lemma prebuilt_built:
  "truthy info \<Longrightarrow> get_prop info ''element'' = Inr el \<Longrightarrow> \<not> truthy el \<Longrightarrow>
   get_prop info ''svg'' = Inr svg \<Longrightarrow> \<not> truthy svg \<Longrightarrow> prebuilt info = content_prebuilt info"
  by (subst prebuilt.simps) (simp add: content_prebuilt_def)

lemma content_prebuilt_items:
  "get_prop info ''content'' = Inr (JArr items ps) \<Longrightarrow>
     content_prebuilt info = concat (map prebuilt items)"
  by (simp add: content_prebuilt_def)

lemma createSVGElement_framed: "framed info d (createSVGElement B svg d)"
  unfolding createSVGElement_def framed_def
  by (auto simp: grows_def moves_def yields_def same_fields_def create_def console_log_def
           split: sum.splits if_splits)

lemma try_catch_framed:
  assumes "built_framed info d out" "prebuilt info = content_prebuilt info"
  shows "framed info d (try_catch out)"
  using assms
  by (cases out rule: try_catch.cases)
     (auto simp: framed_def built_framed_def console_log_def yields_def
           elim: grows_same moves_same)

lemma loop_compose:
  assumes g: "grows d d2"
    and m: "moves {p} (set (concat (map prebuilt (item # rest)))) d d2"
    and l: "loop_framed rest p d2 out"
  shows "loop_framed (item # rest) p d out"
proof -
  from l have g2: "grows d2 (snd out)"
    and m2: "moves {p} (set (concat (map prebuilt rest))) d2 (snd out)"
    by (simp_all add: loop_framed_def)
  from m2 have "moves {p} (set (concat (map prebuilt (item # rest)))) d2 (snd out)"
    by (rule moves_mono) auto
  from g have "next_ref d \<le> next_ref d2" by (simp add: grows_def)
  with m \<open>moves {p} (set (concat (map prebuilt (item # rest)))) d2 (snd out)\<close>
  have "moves {p} (set (concat (map prebuilt (item # rest)))) d (snd out)"
    by (rule moves_trans) simp
  with g g2 show ?thesis
    by (auto simp: loop_framed_def intro: grows_trans)
qed

lemma frame:
  "framed info d (createElement B info parent d)"
  "built_framed info d (try_block B info parent d)"
  "loop_framed items p d (add_inner_content B items p d)"
proof (induction B info parent d and B info parent d and B items p d
       rule: createElement_try_block_add_inner_content.induct)
  case (1 B info parent d)
  show ?case
  proof (cases "truthy info")
    case False
    then show ?thesis
      by (simp add: createElement.simps framed_def grows_refl moves_refl yields_def)
  next
    case True
    obtain el where el: "get_prop info ''element'' = Inr el"
      using get_prop_truthy [OF True] by blast
    obtain svg where svg: "get_prop info ''svg'' = Inr svg"
      using get_prop_truthy [OF True] by blast
    show ?thesis
    proof (cases "truthy el")
      case t: True
      with True el have "createElement B info parent d = (Inr el, d)"
        by (simp add: createElement.simps)
      moreover have "yields info d d (Inr el)"
        unfolding yields_def using prebuilt_element [OF True] el by auto
      ultimately show ?thesis by (simp add: framed_def grows_refl moves_refl)
    next
      case nel: False
      show ?thesis
      proof (cases "truthy svg")
        case True
        with \<open>truthy info\<close> el svg nel
        have "createElement B info parent d = createSVGElement B svg d"
          by (simp add: createElement.simps)
        then show ?thesis by (simp add: createSVGElement_framed)
      next
        case False
        with \<open>truthy info\<close> el svg nel
        have "createElement B info parent d = try_catch (try_block B info parent d)"
          by (simp add: createElement.simps)
        moreover from "1.IH" [OF _ el nel svg False] \<open>truthy info\<close>
        have "built_framed info d (try_block B info parent d)" by simp
        moreover note prebuilt_built [OF \<open>truthy info\<close> el nel svg False]
        ultimately show ?thesis by (simp add: try_catch_framed)
      qed
    qed
  qed
next
  case (2 B info parent d)
  define P where "P = set (content_prebuilt info)"
  define Q where "Q dk \<longleftrightarrow> grows d dk \<and> moves {} P d dk" for dk
  have fail: "built_framed info d (Inl x, dk)" if "Q dk" for x dk
    using that by (simp add: built_framed_def Q_def P_def)
  obtain t d1 where dt: "determine_tag info parent d = (t, d1)"
    by (cases "determine_tag info parent d")
  from determine_tag_same [OF dt] have d1: "next_ref d1 = next_ref d" "nodes d1 = nodes d"
    by simp_all
  have Q1: "Q d1"
    unfolding Q_def using d1 grows_same [OF grows_refl] moves_same [OF moves_refl] by metis
  show ?case
  proof (cases t)
    case (Inl x)
    with dt have "try_block B info parent d = (Inl x, d1)" by (simp add: try_block.simps)
    with fail [OF Q1] show ?thesis by simp
  next
    case tag: (Inr tag)
    obtain e d2 where ne: "new_element B tag d1 = (e, d2)"
      by (cases "new_element B tag d1")
    show ?thesis
    proof (cases e)
      case (Inl x)
      with ne new_element_failed have "d2 = d1" by blast
      with dt tag ne Inl have "try_block B info parent d = (Inl x, d1)"
        by (simp add: try_block.simps)
      with fail [OF Q1] show ?thesis by simp
    next
      case r: (Inr r)
      from new_element_fresh [OF ne [unfolded r]] d1
      have r0: "r = next_ref d" "next_ref d2 = Suc r" "\<forall>q. q \<noteq> r \<longrightarrow> nodes d2 q = nodes d q"
        "childNodes (nodes d2 r) = []"
        by auto
      have Q2: "Q d2"
        unfolding Q_def using r0 by (auto simp: grows_def moves_def same_fields_def)
      have step: "Q dk'" if "Q dk" "acts_on r dk dk'" for dk dk'
        using that r0(1) unfolding Q_def by (auto elim: grows_acts moves_acts)
      obtain o3 d3 where s3: "set_text B info r d2 = (o3, d3)" by (cases "set_text B info r d2")
      obtain o4 d4 where s4: "set_html B info r d3 = (o4, d4)" by (cases "set_html B info r d3")
      obtain o5 d5 where s5: "set_attributes B (entries info) r d4 = (o5, d5)"
        by (cases "set_attributes B (entries info) r d4")
      obtain o6 d6 where s6: "set_properties B info r d5 = (o6, d6)"
        by (cases "set_properties B info r d5")
      note a3 = set_text_acts [OF s3] and a4 = set_html_acts [OF s4]
        and a5 = set_attributes_acts [OF s5] and a6 = set_properties_acts [OF s6]
      have Q3: "Q d3" using step [OF Q2 a3] .
      have Q4: "Q d4" using step [OF Q3 a4] .
      have Q5: "Q d5" using step [OF Q4 a5] .
      have Q6: "Q d6" using step [OF Q5 a6] .
      have a26: "acts_on r d2 d6"
        using a3 a4 a5 a6 by (blast intro: acts_on_trans)
      with r0 have r6: "next_ref d6 = Suc r" "childNodes (nodes d6 r) = []"
        by (simp_all add: acts_on_def)
      show ?thesis
      proof (cases o3)
        case (Some x)
        with dt tag ne r s3 have "try_block B info parent d = (Inl x, d3)"
          by (simp add: try_block.simps)
        with fail [OF Q3] show ?thesis by simp
      next
        case n3: None
        show ?thesis
        proof (cases o4)
          case (Some x)
          with dt tag ne r s3 n3 s4 have "try_block B info parent d = (Inl x, d4)"
            by (simp add: try_block.simps)
          with fail [OF Q4] show ?thesis by simp
        next
          case n4: None
          show ?thesis
          proof (cases o5)
            case (Some x)
            with dt tag ne r s3 n3 s4 n4 s5 have "try_block B info parent d = (Inl x, d5)"
              by (simp add: try_block.simps)
            with fail [OF Q5] show ?thesis by simp
          next
            case n5: None
            show ?thesis
            proof (cases o6)
              case (Some x)
              with dt tag ne r s3 n3 s4 n4 s5 n5 s6
              have "try_block B info parent d = (Inl x, d6)"
                by (simp add: try_block.simps)
              with fail [OF Q6] show ?thesis by simp
            next
              case n6: None
              let ?content = "case get_prop info ''content'' of
                      Inl x \<Rightarrow> (Some x, d6)
                    | Inr content \<Rightarrow>
                        if truthy content
                        then (case content of
                                JArr items ps \<Rightarrow> add_inner_content B items r d6
                              | _ \<Rightarrow> (Some TypeError, d6))
                        else (None, d6)"
              obtain o7 d7 where s7: "?content = (o7, d7)" by (cases ?content)
              have Q7: "Q d7 \<and> Suc r \<le> next_ref d7"
              proof (cases "\<exists>items ps. get_prop info ''content'' = Inr (JArr items ps)")
                case False
                with s7 have "d7 = d6"
                  by (auto split: sum.splits if_splits jsval.splits)
                with Q6 r6 show ?thesis by simp
              next
                case True
                then obtain items ps where c: "get_prop info ''content'' = Inr (JArr items ps)"
                  by blast
                with s7 have l: "add_inner_content B items r d6 = (o7, d7)" by simp
                have "loop_framed items r d6 (add_inner_content B items r d6)"
                  using "2.IH" [OF dt [symmetric] tag ne [symmetric] r s3 [symmetric] n3
                                  s4 [symmetric] n4 s5 [symmetric] n5 s6 [symmetric] n6 c]
                  by simp
                with l content_prebuilt_items [OF c]
                have lf: "grows d6 d7" "moves {r} P d6 d7"
                  by (simp_all add: loop_framed_def P_def)
                from Q6 lf(1) have g: "grows d d7"
                  unfolding Q_def by (blast intro: grows_trans)
                from Q6 have m6: "moves {} P d d6" and le6: "next_ref d \<le> next_ref d6"
                  by (simp_all add: Q_def grows_def)
                from r0(1) have nr: "\<forall>q < next_ref d. q \<in> {r} \<longrightarrow> q \<in> {}" by simp
                have "moves {} P d d7"
                  using m6 lf(2) le6 nr by (rule moves_trans)
                moreover from lf(1) r6 have "Suc r \<le> next_ref d7"
                  by (simp add: grows_def)
                ultimately show ?thesis using g by (simp add: Q_def)
              qed
              obtain o8 d8 where s8: "add_event_listeners B info r d7 = (o8, d8)"
                by (cases "add_event_listeners B info r d7")
              note a8 = add_event_listeners_acts [OF s8]
              have Q8: "Q d8" using step [OF conjunct1 [OF Q7] a8] .
              from a8 Q7 have n8: "Suc r \<le> next_ref d8" by (simp add: acts_on_def)
              obtain o9 d9 where s9: "run_callback B info r parent d8 = (o9, d9)"
                by (cases "run_callback B info r parent d8")
              from run_callback_same [OF s9] have d9: "d9 = d8" .
              have tb: "try_block B info parent d =
                  (case o7 of Some x \<Rightarrow> (Inl x, d7)
                   | None \<Rightarrow> (case o8 of Some x \<Rightarrow> (Inl x, d8)
                     | None \<Rightarrow> (case o9 of Some x \<Rightarrow> (Inl x, d8)
                       | None \<Rightarrow> (Inr (JElem r), d8))))"
                using dt tag ne r s3 n3 s4 n4 s5 n5 s6 n6 s7 s8 s9 d9
                by (simp add: try_block.simps split: option.splits)
              have ok: "built_framed info d (Inr (JElem r), d8)"
                using Q8 n8 r0(1) by (auto simp: built_framed_def Q_def P_def)
              show ?thesis
                unfolding tb using fail [OF conjunct1 [OF Q7]] fail [OF Q8] ok
                by (simp split: option.splits)
            qed
          qed
        qed
      qed
    qed
  qed
next
  case (3 B elem d)
  then show ?case by (simp add: loop_framed_def grows_refl moves_refl)
next
  case (4 B item rest elem d)
  let ?P = "set (concat (map prebuilt (item # rest)))"
  obtain res d1 where ce: "createElement B item (JElem elem) d = (res, d1)"
    by (cases "createElement B item (JElem elem) d")
  from "4.IH"(1) ce have g1: "grows d d1" and m0: "moves {} (set (prebuilt item)) d d1"
    and y1: "yields item d d1 res"
    by (simp_all add: framed_def)
  from m0 have m1: "moves {elem} ?P d d1"
    by (rule moves_mono) auto
  have stop: "loop_framed (item # rest) elem d (out, d1)" for out
    using g1 m1 by (simp add: loop_framed_def)
  show ?case
  proof (cases res)
    case (Inl x)
    with ce have out: "add_inner_content B (item # rest) elem d = (Some x, d1)" by simp
    show ?thesis unfolding out by (rule stop)
  next
    case v: (Inr v)
    show ?thesis
    proof (cases "truthy v")
      case False
      with ce v have out: "add_inner_content B (item # rest) elem d = add_inner_content B rest elem d1"
        by simp
      from "4.IH"(3) [OF ce [symmetric] v False]
      have lf: "loop_framed rest elem d1 (add_inner_content B rest elem d1)" .
      show ?thesis
        unfolding out using g1 m1 lf by (rule loop_compose)
    next
      case True
      obtain o2 d2 where ac: "appendChild B elem v d1 = (o2, d2)"
        by (cases "appendChild B elem v d1")
      show ?thesis
      proof (cases o2)
        case (Some x)
        with appendChild_facts(4) [OF ac] have "d2 = d1" by simp
        with ce v True ac Some
        have out: "add_inner_content B (item # rest) elem d = (Some x, d1)" by simp
        show ?thesis unfolding out by (rule stop)
      next
        case None
        with appendChild_facts(3) [OF ac] obtain ch where ch: "v = JElem ch" "d2 = move_to elem ch d1"
          by blast
        from ce v True ac None
        have out: "add_inner_content B (item # rest) elem d = add_inner_content B rest elem d2"
          by simp
        from "4.IH"(2) [OF ce [symmetric] v True ac [symmetric] None]
        have lf: "loop_framed rest elem d2 (add_inner_content B rest elem d2)" .
        have g: "grows d d2"
          using g1 ch(2) by (auto simp: grows_def move_to_def same_fields_def)
        from y1 v ch(1) have "next_ref d \<le> ch \<or> ch \<in> ?P"
          by (auto simp: yields_def)
        with m1 have m: "moves {elem} ?P d d2"
          unfolding ch(2) by (rule moves_move_to) simp
        show ?thesis
          unfolding out using g m lf by (rule loop_compose)
      qed
    qed
  qed
qed

section \<open>The attributes of the built node\<close>

lemma update_fresh: "k \<notin> fst ` set al \<Longrightarrow> AList.update k v al = al @ [(k, v)]"
  by (induction al) auto

lemma set_text_attributes:
  "set_text B info r d = (res, d') \<Longrightarrow> attributes (nodes d' r) = attributes (nodes d r)"
  by (auto simp: set_text_def modify_def split: sum.splits if_splits option.splits)

lemma set_html_attributes:
  "set_html B info r d = (res, d') \<Longrightarrow> attributes (nodes d' r) = attributes (nodes d r)"
  by (auto simp: set_html_def modify_def split: sum.splits if_splits option.splits)

lemma setAttribute_attributes:
  "setAttribute B k v r d = (None, d') \<Longrightarrow>
     attributes (nodes d' r) = AList.update k v (attributes (nodes d r))"
  by (auto simp: setAttribute_def modify_def split: option.splits)

lemma set_attributes_applied:
  "set_attributes B kvs r d = (None, d') \<Longrightarrow> distinct (map fst kvs) \<Longrightarrow>
   fst ` set (attributes (nodes d r)) \<inter> fst ` set kvs = {} \<Longrightarrow>
   attributes (nodes d' r) = attributes (nodes d r) @
     filter (\<lambda>(k, v). k \<notin> set excluded_keys \<and> v \<noteq> JUndefined \<and> v \<noteq> JNull) kvs"
proof (induction kvs arbitrary: d)
  case Nil
  then show ?case by simp
next
  case (Cons kv rest)
  obtain k v where kv: "kv = (k, v)" by (cases kv)
  show ?case
  proof (cases "v \<noteq> JUndefined \<and> v \<noteq> JNull \<and> k \<notin> set excluded_keys")
    case True
    with Cons.prems(1) kv obtain d1 where e1: "setAttribute B k v r d = (None, d1)"
      and rest: "set_attributes B rest r d1 = (None, d')"
      by (auto split: prod.splits option.splits)
    from Cons.prems(3) kv have "k \<notin> fst ` set (attributes (nodes d r))" by auto
    with setAttribute_attributes [OF e1]
    have a1: "attributes (nodes d1 r) = attributes (nodes d r) @ [(k, v)]"
      by (simp add: update_fresh)
    from Cons.prems(2,3) kv a1 have "fst ` set (attributes (nodes d1 r)) \<inter> fst ` set rest = {}"
      by auto
    with Cons.IH [OF rest] Cons.prems(2) a1 kv True show ?thesis by simp
  next
    case False
    with Cons.prems(1) kv have rest: "set_attributes B rest r d = (None, d')"
      by (auto split: if_splits)
    from Cons.prems(3) have "fst ` set (attributes (nodes d r)) \<inter> fst ` set rest = {}" by auto
    with Cons.IH [OF rest] Cons.prems(2) kv False show ?thesis by auto
  qed
qed

lemma assign_properties_attributes:
  "assign_properties B kvs r d = (res, d') \<Longrightarrow> attributes (nodes d' r) = attributes (nodes d r)"
  by (induction kvs arbitrary: d)
     (auto simp: setProperty_def modify_def split: if_splits prod.splits option.splits)

lemma set_properties_attributes:
  "set_properties B info r d = (res, d') \<Longrightarrow> attributes (nodes d' r) = attributes (nodes d r)"
  by (auto simp: set_properties_def split: sum.splits if_splits dest: assign_properties_attributes)

lemma attach_listeners_attributes:
  "attach_listeners B kvs r d = (res, d') \<Longrightarrow> attributes (nodes d' r) = attributes (nodes d r)"
  by (induction kvs arbitrary: d)
     (auto simp: addEventListener_def modify_def split: prod.splits option.splits)

lemma add_event_listeners_attributes:
  "add_event_listeners B info r d = (res, d') \<Longrightarrow> attributes (nodes d' r) = attributes (nodes d r)"
  by (auto simp: add_event_listeners_def split: sum.splits if_splits dest: attach_listeners_attributes)

text \<open>The steps a completed try block went through.\<close>

lemma try_block_steps:
  assumes "try_block B info parent d = (Inr v, d')"
  shows "\<exists>tag d1 r d2 d3 d4 d5 d6 d7.
    determine_tag info parent d = (Inr tag, d1) \<and>
    new_element B tag d1 = (Inr r, d2) \<and>
    set_text B info r d2 = (None, d3) \<and>
    set_html B info r d3 = (None, d4) \<and>
    set_attributes B (entries info) r d4 = (None, d5) \<and>
    set_properties B info r d5 = (None, d6) \<and>
    ((\<exists>content. get_prop info ''content'' = Inr content \<and> \<not> truthy content \<and> d7 = d6) \<or>
     (\<exists>items ps. get_prop info ''content'' = Inr (JArr items ps) \<and>
        add_inner_content B items r d6 = (None, d7))) \<and>
    add_event_listeners B info r d7 = (None, d') \<and>
    run_callback B info r parent d' = (None, d') \<and>
    v = JElem r"
proof -
  from assms obtain tag d1 where 1: "determine_tag info parent d = (Inr tag, d1)"
    by (cases "determine_tag info parent d") (auto simp: try_block.simps split: sum.splits)
  from assms 1 obtain r d2 where 2: "new_element B tag d1 = (Inr r, d2)"
    by (cases "new_element B tag d1") (auto simp: try_block.simps split: sum.splits)
  from assms 1 2 obtain d3 where 3: "set_text B info r d2 = (None, d3)"
    by (cases "set_text B info r d2") (auto simp: try_block.simps split: option.splits)
  from assms 1 2 3 obtain d4 where 4: "set_html B info r d3 = (None, d4)"
    by (cases "set_html B info r d3") (auto simp: try_block.simps split: option.splits)
  from assms 1 2 3 4 obtain d5 where 5: "set_attributes B (entries info) r d4 = (None, d5)"
    by (cases "set_attributes B (entries info) r d4") (auto simp: try_block.simps split: option.splits)
  from assms 1 2 3 4 5 obtain d6 where 6: "set_properties B info r d5 = (None, d6)"
    by (cases "set_properties B info r d5") (auto simp: try_block.simps split: option.splits)
  let ?content = "case get_prop info ''content'' of
              Inl x \<Rightarrow> (Some x, d6)
            | Inr content \<Rightarrow>
                if truthy content
                then (case content of
                        JArr items ps \<Rightarrow> add_inner_content B items r d6
                      | _ \<Rightarrow> (Some TypeError, d6))
                else (None, d6)"
  from assms 1 2 3 4 5 6 obtain d7 where 7: "?content = (None, d7)"
    by (cases ?content) (auto simp: try_block.simps split: option.splits)
  from assms 1 2 3 4 5 6 7 obtain d8 where 8: "add_event_listeners B info r d7 = (None, d8)"
    by (cases "add_event_listeners B info r d7") (auto simp: try_block.simps split: option.splits)
  from assms 1 2 3 4 5 6 7 8 obtain d9 where 9: "run_callback B info r parent d8 = (None, d9)"
    and 10: "v = JElem r" "d' = d9"
    by (cases "run_callback B info r parent d8") (auto simp: try_block.simps split: option.splits)
  from run_callback_same [OF 9] have 11: "d9 = d8" .
  from 7 have "(\<exists>content. get_prop info ''content'' = Inr content \<and> \<not> truthy content \<and> d7 = d6) \<or>
     (\<exists>items ps. get_prop info ''content'' = Inr (JArr items ps) \<and>
        add_inner_content B items r d6 = (None, d7))"
    by (auto split: sum.splits if_splits jsval.splits)
  with 1 2 3 4 5 6 8 9 10 11 show ?thesis by blast
qed

lemma createElement_built:
  assumes "createElement B info parent d = (Inr (JElem r), d')"
    and "get_prop info ''element'' = Inr el" and "\<not> truthy el"
    and "get_prop info ''svg'' = Inr svg" and "\<not> truthy svg"
  shows "try_block B info parent d = (Inr (JElem r), d')"
proof -
  from assms(1) have ti: "truthy info"
    by (auto simp: createElement.simps split: if_splits)
  with assms have "try_catch (try_block B info parent d) = (Inr (JElem r), d')"
    by (simp add: createElement.simps)
  then show ?thesis
    by (cases "try_block B info parent d" rule: try_catch.cases) auto
qed

text \<open>
  Claim C6. When \<open>createElement\<close> builds a node from a description (no pre-built node, no
  markup), the attributes it has set on the node are exactly the entries of the
  description whose key is none of \<open>tag\<close>, \<open>text\<close>, \<open>html\<close>, \<open>props\<close>, \<open>content\<close>, \<open>events\<close>,
  \<open>callback\<close> and whose value is neither \<open>undefined\<close> nor \<open>null\<close>, in the order of the
  description; a description with reserved keys only gives a node with no attribute.
\<close>

theorem attributes_are_the_unreserved_fields:
  assumes "createElement B info parent d = (Inr (JElem r), d')"
      and "get_prop info ''element'' = Inr el" and "\<not> truthy el"
      and "get_prop info ''svg'' = Inr svg" and "\<not> truthy svg"
      and "distinct (map fst (entries info))"
  shows "attributes (nodes d' r) =
           filter (\<lambda>(k, v). k \<notin> set excluded_keys \<and> v \<noteq> JUndefined \<and> v \<noteq> JNull) (entries info)
         \<and> ((\<forall>k \<in> fst ` set (entries info). k \<in> set excluded_keys) \<longrightarrow> attributes (nodes d' r) = [])"
proof -
  from try_block_steps [OF createElement_built [OF assms(1-5)]]
  obtain tag d1 d2 d3 d4 d5 d6 d7 where
    s: "new_element B tag d1 = (Inr r, d2)" "set_text B info r d2 = (None, d3)"
       "set_html B info r d3 = (None, d4)"
       "set_attributes B (entries info) r d4 = (None, d5)" "set_properties B info r d5 = (None, d6)"
       "d7 = d6 \<or> (\<exists>items. add_inner_content B items r d6 = (None, d7))"
       "add_event_listeners B info r d7 = (None, d')"
    by blast
  from s(1,2,3) have "attributes (nodes d4 r) = []"
    using new_element_fresh set_text_attributes set_html_attributes by metis
  with set_attributes_applied [OF s(4) assms(6)]
  have 5: "attributes (nodes d5 r) =
      filter (\<lambda>(k, v). k \<notin> set excluded_keys \<and> v \<noteq> JUndefined \<and> v \<noteq> JNull) (entries info)"
    by simp
  from s(5) have 6: "attributes (nodes d6 r) = attributes (nodes d5 r)"
    by (rule set_properties_attributes)
  have "r < next_ref d6"
    using new_element_fresh [OF s(1)] set_text_acts [OF s(2)] set_html_acts [OF s(3)]
      set_attributes_acts [OF s(4)] set_properties_acts [OF s(5)]
    by (simp add: acts_on_def)
  have 7: "attributes (nodes d7 r) = attributes (nodes d6 r)"
  proof (cases "d7 = d6")
    case False
    with s(6) obtain items where "add_inner_content B items r d6 = (None, d7)" by blast
    with frame(3) [of items r d6 B] have "grows d6 d7" by (simp add: loop_framed_def)
    with \<open>r < next_ref d6\<close> show ?thesis by (simp add: grows_def same_fields_def)
  qed simp
  from s(7) have "attributes (nodes d' r) = attributes (nodes d7 r)"
    by (rule add_event_listeners_attributes)
  with 5 6 7 have *: "attributes (nodes d' r) =
      filter (\<lambda>(k, v). k \<notin> set excluded_keys \<and> v \<noteq> JUndefined \<and> v \<noteq> JNull) (entries info)"
    by simp
  have "attributes (nodes d' r) = []" if "\<forall>k \<in> fst ` set (entries info). k \<in> set excluded_keys"
    unfolding * using that by (auto simp: filter_empty_conv)
  with * show ?thesis by blast
qed

text \<open>
  A description with reserved and other fields, two of them \<open>null\<close> and \<open>undefined\<close> and one
  the falsy number 0; and a description with reserved fields only.
\<close>

theorem attributes_are_the_unreserved_fields_witness:
  "fst (createElement test_browser sample_info JUndefined empty_dom) = Inr (JElem 0)
   \<and> nodes (snd (createElement test_browser sample_info JUndefined empty_dom)) 0 =
       \<lparr>tagName = ''DIV'', innerText = Some (JStr ''t''), innerHTML = None,
        attributes = [(''id'', JStr ''x''), (''data-n'', JNum 0)],
        properties = [(''value'', JStr ''v'')], childNodes = [],
        listeners = [(''click'', JFun 3)]\<rparr>
   \<and> fst (createElement test_browser (JObj [(''tag'', JStr ''div''), (''text'', JStr ''t'')])
          JUndefined empty_dom) = Inr (JElem 0)
   \<and> attributes (nodes (snd (createElement test_browser
          (JObj [(''tag'', JStr ''div''), (''text'', JStr ''t'')]) JUndefined empty_dom)) 0) = []"
proof -
  let ?j = "JObj [(''tag'', JStr ''div''), (''text'', JStr ''t'')]"
  let ?d = "snd (createElement test_browser sample_info JUndefined empty_dom)"
  let ?e = "snd (createElement test_browser ?j JUndefined empty_dom)"
  have f1: "fst (createElement test_browser sample_info JUndefined empty_dom) = Inr (JElem 0)"
    by (simp add: builder_defs sample_info_def)
  have f2: "fst (createElement test_browser ?j JUndefined empty_dom) = Inr (JElem 0)"
    by (simp add: builder_defs)
  from f1 have 1: "createElement test_browser sample_info JUndefined empty_dom = (Inr (JElem 0), ?d)"
    by (simp add: prod_eq_iff)
  from f2 have 2: "createElement test_browser ?j JUndefined empty_dom = (Inr (JElem 0), ?e)"
    by (simp add: prod_eq_iff)
  have "attributes (nodes ?d 0) =
      filter (\<lambda>(k, v). k \<notin> set excluded_keys \<and> v \<noteq> JUndefined \<and> v \<noteq> JNull) (entries sample_info)"
    using attributes_are_the_unreserved_fields
      [OF 1, where el = JUndefined and svg = JUndefined]
    by (simp add: sample_info_def)
  moreover have "attributes (nodes ?e 0) = []"
    using attributes_are_the_unreserved_fields
      [OF 2, where el = JUndefined and svg = JUndefined]
    by (simp add: excluded_keys_def)
  moreover have "nodes ?d 0 =
       \<lparr>tagName = ''DIV'', innerText = Some (JStr ''t''), innerHTML = None,
        attributes = [(''id'', JStr ''x''), (''data-n'', JNum 0)],
        properties = [(''value'', JStr ''v'')], childNodes = [],
        listeners = [(''click'', JFun 3)]\<rparr>"
    by (simp add: builder_defs sample_info_def)
  ultimately show ?thesis using f1 f2 by simp
qed

section \<open>The children of the built node\<close>










section \<open>Removing a toast\<close>

lemma removeToast_unknown: "toastItems s tid = None \<Longrightarrow> removeToast tid s = s"
  by (simp add: removeToast_def)

lemma removeToast_known:
  "toastItems s tid = Some item \<Longrightarrow>
     toastItems (removeToast tid s) tid = None \<and>
     style_opacity (removeToast tid s) item = Some ''0'' \<and>
     toast_container (removeToast tid s) = toast_container s \<and>
     timers (removeToast tid s) = timers s @ [(next_timer s, 300, Detach item)] \<and>
     toast_container (fire (next_timer s, 300, Detach item) (removeToast tid s)) =
       map_option (removeAll item) (toast_container s)"
  by (simp add: removeToast_def setTimeout_def fire_def Let_def)

lemma removeToast_forgets: "toastItems (removeToast tid s) tid = None"
  by (cases "toastItems s tid") (simp_all add: removeToast_unknown removeToast_known)

lemma toast_registers:
  "toast B message forLong s = (Inr tid, s') \<Longrightarrow>
     \<exists>item ch. toastItems s' tid = Some item \<and> toast_container s' = Some ch \<and> item \<in> set ch"
  by (auto simp: toast_def setTimeout_def Let_def
           split: option.splits sum.splits prod.splits jsval.splits if_splits)

text \<open>
  Claim C8. \<open>removeToast\<close> changes nothing when the identifier is not in the registry.
  When it is, the node's opacity is set to \<open>0\<close> and the entry is deleted at once, while
  the node stays in the container until the timer of 300 that was just set fires and
  detaches it. A
  second call with the same identifier changes nothing more. The identifier \<open>toast\<close>
  returns is in the registry, and after \<open>removeToast\<close> of it the registry no longer has
  it, the node's opacity is \<open>0\<close> and the node is still in the container.
\<close>

theorem removeToast_forgets_the_toast:
  "(toastItems s tid = None \<longrightarrow> removeToast tid s = s)
   \<and> (toastItems s tid = Some item \<longrightarrow>
        toastItems (removeToast tid s) tid = None \<and>
        style_opacity (removeToast tid s) item = Some ''0'' \<and>
        toast_container (removeToast tid s) = toast_container s \<and>
        timers (removeToast tid s) = timers s @ [(next_timer s, 300, Detach item)] \<and>
        toast_container (fire (next_timer s, 300, Detach item) (removeToast tid s)) =
          map_option (removeAll item) (toast_container s))
   \<and> removeToast tid (removeToast tid s) = removeToast tid s
   \<and> (toast B message forLong s = (Inr tid, s') \<longrightarrow>
        (\<exists>node ch. toastItems s' tid = Some node \<and>
           toastItems (removeToast tid s') tid = None \<and>
           style_opacity (removeToast tid s') node = Some ''0'' \<and>
           toast_container (removeToast tid s') = Some ch \<and> node \<in> set ch))"
proof -
  have 1: "toastItems s tid = None \<longrightarrow> removeToast tid s = s"
    by (simp add: removeToast_unknown)
  have 2: "toastItems s tid = Some item \<longrightarrow>
        toastItems (removeToast tid s) tid = None \<and>
        style_opacity (removeToast tid s) item = Some ''0'' \<and>
        toast_container (removeToast tid s) = toast_container s \<and>
        timers (removeToast tid s) = timers s @ [(next_timer s, 300, Detach item)] \<and>
        toast_container (fire (next_timer s, 300, Detach item) (removeToast tid s)) =
          map_option (removeAll item) (toast_container s)"
    using removeToast_known by blast
  have 3: "removeToast tid (removeToast tid s) = removeToast tid s"
    by (rule removeToast_unknown) (rule removeToast_forgets)
  have 4: "\<exists>node ch. toastItems s' tid = Some node \<and>
           toastItems (removeToast tid s') tid = None \<and>
           style_opacity (removeToast tid s') node = Some ''0'' \<and>
           toast_container (removeToast tid s') = Some ch \<and> node \<in> set ch"
    if "toast B message forLong s = (Inr tid, s')"
  proof -
    from toast_registers [OF that] obtain node ch where
      n: "toastItems s' tid = Some node" "toast_container s' = Some ch" "node \<in> set ch"
      by blast
    with removeToast_known [OF n(1)] show ?thesis by auto
  qed
  from 1 2 3 4 show ?thesis by blast
qed

text \<open>A toast shown on the empty page and removed twice; an identifier never given.\<close>

theorem removeToast_forgets_the_toast_witness:
  "toast test_browser (JStr ''saved'') JUndefined empty_page = (Inr 2, shown)
   \<and> toastItems shown 2 = Some 0
   \<and> toastItems (removeToast 2 shown) 2 = None
   \<and> style_opacity (removeToast 2 shown) 0 = Some ''0''
   \<and> toast_container (removeToast 2 shown) = Some [0]
   \<and> removeToast 2 (removeToast 2 shown) = removeToast 2 shown
   \<and> toastItems shown 7 = None
   \<and> removeToast 7 shown = shown"
proof -
  have c: "fst (createElement test_browser
             (JObj [(''tag'', JStr ''div''), (''class'', JStr ''toast-message''),
                    (''content'', JArr [JObj [(''tag'', JStr ''span''), (''text'', JStr ''saved'')]] [])])
             JUndefined empty_dom) = Inr (JElem 0)"
    by (simp add: builder_defs)
  then have c': "createElement test_browser
             (JObj [(''tag'', JStr ''div''), (''class'', JStr ''toast-message''),
                    (''content'', JArr [JObj [(''tag'', JStr ''span''), (''text'', JStr ''saved'')]] [])])
             JUndefined empty_dom = (Inr (JElem 0), doc shown)"
    by (simp add: prod_eq_iff shown_def)
  have dc: "document_createElement test_browser (JStr ''div'') = Inr ''DIV''"
    by (simp add: test_browser_def html_names_def)
  have t: "toast test_browser (JStr ''saved'') JUndefined empty_page = (Inr 2, shown)"
    unfolding toast_def
    by (simp add: c' dc empty_page_def setTimeout_def Let_def numeral_2_eq_2)
       (simp add: shown_def numeral_2_eq_2)
  have k: "toastItems shown 2 = Some 0" and u: "toastItems shown 7 = None"
    by (simp_all add: shown_def)
  note a = removeToast_forgets_the_toast
             [where s = shown and tid = 2 and item = 0 and B = test_browser
                and message = "JStr ''saved''" and forLong = JUndefined and s' = shown]
  note b = removeToast_forgets_the_toast
             [where s = shown and tid = 7 and item = 0 and B = test_browser
                and message = "JStr ''saved''" and forLong = JUndefined and s' = shown]
  have "toast_container (removeToast 2 shown) = Some [0]"
    using a k by (simp add: shown_def)
  with a b t k u show ?thesis by simp
qed

section \<open>The request that is sent\<close>

text \<open>
  Claim C5. With a payload and no form data, \<open>_fetch\<close> calls \<open>fetch\<close> with the endpoint
  and an \<open>init\<close> whose body is the serialization of the payload and whose only header is
  \<open>Content-Type: application/json\<close>; with form data and no payload, with an \<open>init\<close> whose
  body is the form data and that has no header. What \<open>_fetch\<close> returns is what its
  handlers make of the promise of that very call.
  (A payload or form data is given when it is truthy, as every object is.)
\<close>

theorem request_body_and_content_type:
  "(truthy payload \<and> \<not> truthy formData \<and> JSON_stringify N payload = Inr serialized \<longrightarrow>
      spart_fetch N endpoint http_method payload formData c =
        (case handlers
                (fetch N endpoint
                   \<lparr>init_method = (if truthy http_method then Some http_method else None),
                    init_body = Some serialized,
                    init_headers = [(''Content-Type'', ''application/json'')]\<rparr>) c of
           (p, c') \<Rightarrow> (Inr p, c')))
   \<and> (\<not> truthy payload \<and> truthy formData \<longrightarrow>
      spart_fetch N endpoint http_method payload formData c =
        (case handlers
                (fetch N endpoint
                   \<lparr>init_method = (if truthy http_method then Some http_method else None),
                    init_body = Some formData,
                    init_headers = []\<rparr>) c of
           (p, c') \<Rightarrow> (Inr p, c')))"
  by (simp add: spart_fetch_def make_init_def Let_def)

text \<open>
  The payload \<open>{a:1}\<close> alone, and form data alone, sent to the endpoint that answers with
  the body and the headers it received.
\<close>

theorem request_body_and_content_type_witness:
  "spart_fetch test_net (JStr ''/echo'') (JStr ''POST'') (JObj [(''a'', JNum 1)]) JUndefined [] =
     (Inr (Resolved (Native
        \<lparr>resp_ok = True, resp_status = 200,
         parsed = Inr (JsonObj [(''body'', JsonStr ''{\"a\":1}''),
                               (''headers'', JsonObj [(''Content-Type'', JsonStr ''application/json'')])])\<rparr>
        False)), [])
   \<and> spart_fetch test_net (JStr ''/echo'') (JStr ''POST'') JUndefined (JObj [(''file'', JStr ''f'')]) [] =
     (Inr (Resolved (Native
        \<lparr>resp_ok = True, resp_status = 200,
         parsed = Inr (JsonObj [(''body'', JsonStr ''(not a text)''), (''headers'', JsonObj [])])\<rparr>
        False)), [])"
proof -
  have s: "JSON_stringify test_net (JObj [(''a'', JNum 1)]) = Inr (JStr ''{\"a\":1}'')"
    by (simp add: test_net_def)
  have 1: "spart_fetch test_net (JStr ''/echo'') (JStr ''POST'') (JObj [(''a'', JNum 1)]) JUndefined [] =
        (case handlers
                (fetch test_net (JStr ''/echo'')
                   \<lparr>init_method = Some (JStr ''POST''), init_body = Some (JStr ''{\"a\":1}''),
                    init_headers = [(''Content-Type'', ''application/json'')]\<rparr>) [] of
           (p, c') \<Rightarrow> (Inr p, c'))"
    using request_body_and_content_type
         [where N = test_net and http_method = "JStr ''POST''" and payload = "JObj [(''a'', JNum 1)]"
            and formData = JUndefined and serialized = "JStr ''{\"a\":1}''"
            and endpoint = "JStr ''/echo''" and c = "[]"] s
    by simp
  have 2: "spart_fetch test_net (JStr ''/echo'') (JStr ''POST'') JUndefined (JObj [(''file'', JStr ''f'')]) [] =
        (case handlers
                (fetch test_net (JStr ''/echo'')
                   \<lparr>init_method = Some (JStr ''POST''), init_body = Some (JObj [(''file'', JStr ''f'')]),
                    init_headers = []\<rparr>) [] of
           (p, c') \<Rightarrow> (Inr p, c'))"
    using request_body_and_content_type
         [where N = test_net and http_method = "JStr ''POST''" and payload = JUndefined
            and formData = "JObj [(''file'', JStr ''f'')]"
            and endpoint = "JStr ''/echo''" and c = "[]"]
    by simp
  show ?thesis
    unfolding 1 2 by (simp add: handlers_def test_net_def)
qed

text \<open>
  Claim C10. With both a payload and form data, \<open>_fetch\<close> calls \<open>fetch\<close> with the endpoint
  and an \<open>init\<close> whose body is the form data and whose only header is the
  \<open>Content-Type: application/json\<close> set for the payload; what \<open>_fetch\<close> returns is what its
  handlers make of the promise of that very call.
\<close>

theorem form_data_overwrites_the_json_body:
  "truthy payload \<and> truthy formData \<and> JSON_stringify N payload = Inr serialized \<longrightarrow>
     spart_fetch N endpoint http_method payload formData c =
       (case handlers
               (fetch N endpoint
                  \<lparr>init_method = (if truthy http_method then Some http_method else None),
                   init_body = Some formData,
                   init_headers = [(''Content-Type'', ''application/json'')]\<rparr>) c of
          (p, c') \<Rightarrow> (Inr p, c'))"
  by (simp add: spart_fetch_def make_init_def Let_def)

text \<open>
  The payload \<open>{a:1}\<close> together with form data, sent to the endpoint that answers with
  the body and the headers it received.
\<close>

theorem form_data_overwrites_the_json_body_witness:
  "JSON_stringify test_net (JObj [(''a'', JNum 1)]) = Inr (JStr ''{\"a\":1}'')
   \<and> spart_fetch test_net (JStr ''/echo'') (JStr ''POST'') (JObj [(''a'', JNum 1)])
        (JObj [(''file'', JStr ''f'')]) [] =
     (Inr (Resolved (Native
        \<lparr>resp_ok = True, resp_status = 200,
         parsed = Inr (JsonObj [(''body'', JsonStr ''(not a text)''),
                               (''headers'', JsonObj [(''Content-Type'', JsonStr ''application/json'')])])\<rparr>
        False)), [])"
proof -
  have s: "JSON_stringify test_net (JObj [(''a'', JNum 1)]) = Inr (JStr ''{\"a\":1}'')"
    by (simp add: test_net_def)
  have 1: "spart_fetch test_net (JStr ''/echo'') (JStr ''POST'') (JObj [(''a'', JNum 1)])
        (JObj [(''file'', JStr ''f'')]) [] =
        (case handlers
                (fetch test_net (JStr ''/echo'')
                   \<lparr>init_method = Some (JStr ''POST''), init_body = Some (JObj [(''file'', JStr ''f'')]),
                    init_headers = [(''Content-Type'', ''application/json'')]\<rparr>) [] of
           (p, c') \<Rightarrow> (Inr p, c'))"
    using form_data_overwrites_the_json_body
         [where N = test_net and http_method = "JStr ''POST''" and payload = "JObj [(''a'', JNum 1)]"
            and formData = "JObj [(''file'', JStr ''f'')]" and serialized = "JStr ''{\"a\":1}''"
            and endpoint = "JStr ''/echo''" and c = "[]"] s
    by simp
  show ?thesis
    unfolding 1 using s by (simp add: handlers_def test_net_def)
qed

section \<open>Failed requests\<close>

text \<open>
  Claim C3. When the promise of \<open>fetch\<close> is rejected, \<open>_fetch\<close> raises nothing and its
  promise resolves: to the object literal with \<open>ok\<close> false and \<open>status\<close> 0 whose \<open>json()\<close>
  resolves to the problem with status 0 and the detail
  \<open>Please check your internet connection\<close>; the rejection is logged.
\<close>

theorem transport_failure_is_a_problem:
  assumes "make_init N http_method payload formData = Inr i"
      and "fetch N endpoint i = Rejected x"
  shows "spart_fetch N endpoint http_method payload formData c =
           (Inr (Resolved (Literal False (JNum 0)
              (JObj [(''status'', JNum 0),
                     (''detail'', JStr ''Please check your internet connection'')]))),
            c @ [LogError x])
         \<and> ok_of (Literal False (JNum 0)
              (JObj [(''status'', JNum 0),
                     (''detail'', JStr ''Please check your internet connection'')])) = False
         \<and> status_of (Literal False (JNum 0)
              (JObj [(''status'', JNum 0),
                     (''detail'', JStr ''Please check your internet connection'')])) = JNum 0
         \<and> fst (json_of (Literal False (JNum 0)
              (JObj [(''status'', JNum 0),
                     (''detail'', JStr ''Please check your internet connection'')]))) =
             Resolved (JObj [(''status'', JNum 0),
                     (''detail'', JStr ''Please check your internet connection'')])"
  using assms
  by (simp add: spart_fetch_def handlers_def on_fetch_error_def asFetchResponse_def)

text \<open>A POST of \<open>{a:1}\<close> to the endpoint that cannot be reached.\<close>

theorem transport_failure_is_a_problem_witness:
  "make_init test_net (JStr ''POST'') (JObj [(''a'', JNum 1)]) JUndefined =
     Inr \<lparr>init_method = Some (JStr ''POST''), init_body = Some (JStr ''{\"a\":1}''),
          init_headers = [(''Content-Type'', ''application/json'')]\<rparr>
   \<and> fetch test_net (JStr ''/unreachable'')
        \<lparr>init_method = Some (JStr ''POST''), init_body = Some (JStr ''{\"a\":1}''),
         init_headers = [(''Content-Type'', ''application/json'')]\<rparr> = Rejected TypeError
   \<and> spart_fetch test_net (JStr ''/unreachable'') (JStr ''POST'') (JObj [(''a'', JNum 1)]) JUndefined [] =
       (Inr (Resolved (Literal False (JNum 0)
          (JObj [(''status'', JNum 0),
                 (''detail'', JStr ''Please check your internet connection'')]))),
        [LogError TypeError])"
proof -
  let ?i = "\<lparr>init_method = Some (JStr ''POST''), init_body = Some (JStr ''{\"a\":1}''),
          init_headers = [(''Content-Type'', ''application/json'')]\<rparr>"
  have i: "make_init test_net (JStr ''POST'') (JObj [(''a'', JNum 1)]) JUndefined = Inr ?i"
    by (simp add: make_init_def test_net_def)
  have f: "fetch test_net (JStr ''/unreachable'') ?i = Rejected TypeError"
    by (simp add: test_net_def)
  from transport_failure_is_a_problem [OF i f, of "[]"] i f show ?thesis by simp
qed

lemma lookup_update:
  "lookup (AList.update k v ps) k' = (if k' = k then v else lookup ps k')"
  by (simp add: update_conv')

lemma on_problem_object:
  assumes "(\<exists>ps. p = JObj ps) \<or> (\<exists>xs ps. p = JArr xs ps)"
    and "get_prop p ''status'' = Inr st"
    and "get_prop p ''detail'' = Inr d"
    and "get_prop p ''message'' = Inr m"
  shows "\<exists>q. on_problem status p =
               Inr (Literal False (if truthy st then st else JNum (int status)) q) \<and>
             get_prop q ''status'' = Inr (if truthy st then st else JNum (int status)) \<and>
             get_prop q ''detail'' =
               Inr (if truthy d then d else if truthy m then m
                    else JStr (''An error occurred: '' @ dec status))"
  using assms
  unfolding on_problem_def asFetchResponse_def
  by (elim disjE exE) (simp_all add: lookup_update del: lookup.simps)

lemma of_json_object:
  "(\<exists>ps. j = JsonObj ps) \<or> (\<exists>xs. j = JsonArr xs) \<Longrightarrow>
     (\<exists>ps. of_json j = JObj ps) \<or> (\<exists>xs ps. of_json j = JArr xs ps)"
  by auto

text \<open>
  A body that parses to a JSON string is left as it is: the assignments are ignored, the
  problem is the string and the literal's \<open>status\<close> is \<open>undefined\<close>.
\<close>

lemma on_problem_string:
  "on_problem status (of_json (JsonStr s)) = Inr (Literal False JUndefined (JStr s))"
  by (simp add: on_problem_def asFetchResponse_def)

text \<open>
  Claim C2, as the code has it. For a response that is not \<open>ok\<close>: if the body parses to
  a JSON object (or array), the problem's status is the body's \<open>status\<close> when that is
  truthy and the HTTP status otherwise, and its detail is the body's \<open>detail\<close> when
  truthy, otherwise its \<open>message\<close> when truthy, otherwise \<open>An error occurred: \<close> followed
  by the HTTP status; the literal's \<open>status\<close> is the problem's. If the body parses to
  \<open>null\<close> or does not parse, the problem has the HTTP status and that generated detail,
  and the exception is logged.
\<close>

theorem problem_of_a_failed_response:
  assumes "make_init N http_method payload formData = Inr i"
      and "fetch N endpoint i = Resolved response"
      and "\<not> resp_ok response"
  shows "(parsed response = Inr j \<and> ((\<exists>ps. j = JsonObj ps) \<or> (\<exists>xs. j = JsonArr xs)) \<and>
          get_prop (of_json j) ''status'' = Inr st \<and>
          get_prop (of_json j) ''detail'' = Inr d \<and>
          get_prop (of_json j) ''message'' = Inr m
          \<longrightarrow> (\<exists>q. spart_fetch N endpoint http_method payload formData c =
                      (Inr (Resolved (Literal False
                         (if truthy st then st else JNum (int (resp_status response))) q)), c) \<and>
                    get_prop q ''status'' =
                      Inr (if truthy st then st else JNum (int (resp_status response))) \<and>
                    get_prop q ''detail'' =
                      Inr (if truthy d then d else if truthy m then m
                           else JStr (''An error occurred: '' @ dec (resp_status response)))))
       \<and> (parsed response = Inr JsonNull \<or> parsed response = Inl x
          \<longrightarrow> (\<exists>y. spart_fetch N endpoint http_method payload formData c =
                      (Inr (Resolved (Literal False (JNum (int (resp_status response)))
                         (JObj [(''status'', JNum (int (resp_status response))),
                                (''detail'', JStr (''An error occurred: '' @ dec (resp_status response)))]))),
                       c @ [LogError y])))"
proof -
  have sf: "spart_fetch N endpoint http_method payload formData c =
      (case getProblemDetail response c of
         (Resolved r, c1) \<Rightarrow> (Inr (Resolved r), c1)
       | (Rejected x, c1) \<Rightarrow>
           (case on_fetch_error x c1 of
              (Inl y, c2) \<Rightarrow> (Inr (Rejected y), c2)
            | (Inr r, c2) \<Rightarrow> (Inr (Resolved r), c2)))"
    using assms by (simp add: spart_fetch_def handlers_def split: prod.splits promise.splits sum.splits)
  have 1: "\<exists>q. spart_fetch N endpoint http_method payload formData c =
                      (Inr (Resolved (Literal False
                         (if truthy st then st else JNum (int (resp_status response))) q)), c) \<and>
                    get_prop q ''status'' =
                      Inr (if truthy st then st else JNum (int (resp_status response))) \<and>
                    get_prop q ''detail'' =
                      Inr (if truthy d then d else if truthy m then m
                           else JStr (''An error occurred: '' @ dec (resp_status response)))"
    if p: "parsed response = Inr j" and o: "(\<exists>ps. j = JsonObj ps) \<or> (\<exists>xs. j = JsonArr xs)"
      and g: "get_prop (of_json j) ''status'' = Inr st" "get_prop (of_json j) ''detail'' = Inr d"
        "get_prop (of_json j) ''message'' = Inr m"
  proof -
    from on_problem_object [OF of_json_object [OF o] g, of "resp_status response"]
    obtain q where q: "on_problem (resp_status response) (of_json j) =
               Inr (Literal False (if truthy st then st else JNum (int (resp_status response))) q)"
      "get_prop q ''status'' = Inr (if truthy st then st else JNum (int (resp_status response)))"
      "get_prop q ''detail'' =
               Inr (if truthy d then d else if truthy m then m
                    else JStr (''An error occurred: '' @ dec (resp_status response)))"
      by blast
    from p q(1) have "getProblemDetail response c =
        (Resolved (Literal False (if truthy st then st else JNum (int (resp_status response))) q), c)"
      by (simp add: getProblemDetail_def Let_def)
    with sf q(2,3) show ?thesis by auto
  qed
  have 2: "\<exists>y. spart_fetch N endpoint http_method payload formData c =
                      (Inr (Resolved (Literal False (JNum (int (resp_status response)))
                         (JObj [(''status'', JNum (int (resp_status response))),
                                (''detail'', JStr (''An error occurred: '' @ dec (resp_status response)))]))),
                       c @ [LogError y])"
    if "parsed response = Inr JsonNull \<or> parsed response = Inl x"
  proof -
    from that have "\<exists>y. getProblemDetail response c =
        (Resolved (Literal False (JNum (int (resp_status response)))
                         (JObj [(''status'', JNum (int (resp_status response))),
                                (''detail'', JStr (''An error occurred: '' @ dec (resp_status response)))])),
         c @ [LogError y])"
      by (auto simp: getProblemDetail_def Let_def on_problem_def on_problem_error_def
                  asFetchResponse_def)
    with sf show ?thesis by auto
  qed
  from 1 2 show ?thesis by blast
qed

text \<open>
  The 404 with the body \<open>{"message":"not found"}\<close>, and the 500 whose body is not JSON.
\<close>

theorem problem_of_a_failed_response_witness:
  "spart_fetch test_net (JStr ''/missing'') (JStr ''GET'') JUndefined JUndefined [] =
     (Inr (Resolved (Literal False (JNum 404)
        (JObj [(''message'', JStr ''not found''), (''status'', JNum 404),
               (''detail'', JStr ''not found'')]))), [])
   \<and> spart_fetch test_net (JStr ''/broken'') (JStr ''GET'') JUndefined JUndefined [] =
     (Inr (Resolved (Literal False (JNum 500)
        (JObj [(''status'', JNum 500), (''detail'', JStr ''An error occurred: 500'')]))),
      [LogError (Error ''SyntaxError'')])"
proof -
  let ?i = "\<lparr>init_method = Some (JStr ''GET''), init_body = None, init_headers = []\<rparr>"
  let ?m = "\<lparr>resp_ok = False, resp_status = 404,
              parsed = Inr (JsonObj [(''message'', JsonStr ''not found'')])\<rparr>"
  let ?b = "\<lparr>resp_ok = False, resp_status = 500, parsed = Inl (Error ''SyntaxError'')\<rparr>"
  have i: "make_init test_net (JStr ''GET'') JUndefined JUndefined = Inr ?i"
    by (auto simp: make_init_def Let_def)
  have m: "fetch test_net (JStr ''/missing'') ?i = Resolved ?m"
    and b: "fetch test_net (JStr ''/broken'') ?i = Resolved ?b"
    by (simp_all add: test_net_def)
  from problem_of_a_failed_response
         [OF i m, where j = "JsonObj [(''message'', JsonStr ''not found'')]" and st = JUndefined
            and d = JUndefined and m = "JStr ''not found''" and c = "[]"]
  obtain q where "spart_fetch test_net (JStr ''/missing'') (JStr ''GET'') JUndefined JUndefined [] =
      (Inr (Resolved (Literal False (JNum 404) q)), [])"
    "get_prop q ''detail'' = Inr (JStr ''not found'')"
    by auto
  moreover
  from problem_of_a_failed_response
         [OF i b, where x = "Error ''SyntaxError''" and c = "[]"]
  obtain y where "spart_fetch test_net (JStr ''/broken'') (JStr ''GET'') JUndefined JUndefined [] =
      (Inr (Resolved (Literal False (JNum 500)
        (JObj [(''status'', JNum 500), (''detail'', JStr (''An error occurred: '' @ dec 500))]))),
       [] @ [LogError y])"
    by auto
  ultimately show ?thesis
    by (simp add: fetch_defs dec.simps)
qed

text \<open>
  Claim C2 as stated fails where a field is present but falsy: for the body
  \<open>{"status":0,"detail":""}\<close> under HTTP 500 the problem's status is 500, not the body's
  0, and its detail is the generated string, not the body's empty one.
\<close>

theorem falsy_problem_fields_counterexample:
  "spart_fetch test_net (JStr ''/falsy'') (JStr ''GET'') JUndefined JUndefined [] =
     (Inr (Resolved (Literal False (JNum 500)
        (JObj [(''status'', JNum 500), (''detail'', JStr ''An error occurred: 500'')]))), [])
   \<and> get_prop (of_json (JsonObj [(''status'', JsonNum 0), (''detail'', JsonStr [])])) ''status''
       = Inr (JNum 0)
   \<and> get_prop (of_json (JsonObj [(''status'', JsonNum 0), (''detail'', JsonStr [])])) ''detail''
       = Inr (JStr [])
   \<and> get_prop (JObj [(''status'', JNum 500), (''detail'', JStr ''An error occurred: 500'')]) ''status''
       \<noteq> Inr (JNum 0)
   \<and> get_prop (JObj [(''status'', JNum 500), (''detail'', JStr ''An error occurred: 500'')]) ''detail''
       \<noteq> Inr (JStr [])"
  by (simp add: fetch_defs dec.simps)

section \<open>The synthesized response\<close>

lemma asFetchResponse_object:
  "asFetchResponse (JObj ps) = Inr (Literal False (lookup ps ''status'') (JObj ps))"
  by (simp add: asFetchResponse_def)

lemma on_problem_result:
  "on_problem status problem = Inr r \<Longrightarrow> \<exists>p. asFetchResponse p = Inr r"
  unfolding on_problem_def
  by (auto split: sum.splits if_splits)

lemma getProblemDetail_result:
  "getProblemDetail response c = (Resolved r, c') \<Longrightarrow> \<exists>p. asFetchResponse p = Inr r"
  unfolding getProblemDetail_def on_problem_error_def Let_def
  by (auto split: sum.splits promise.splits prod.splits dest: on_problem_result)

lemma spart_fetch_result:
  "spart_fetch N endpoint http_method payload formData c = (Inr (Resolved r), c') \<Longrightarrow>
     (\<exists>n. r = Native n False) \<or> (\<exists>p. asFetchResponse p = Inr r)"
  unfolding spart_fetch_def handlers_def on_fetch_error_def
  by (auto split: sum.splits promise.splits prod.splits if_splits dest: getProblemDetail_result)

lemma json_times_literal:
  "json_times n (Literal b st p) = (replicate n (Resolved p), Literal b st p)"
  by (induction n) auto

text \<open>
  Claim C9. The literal \<open>asFetchResponse\<close> makes for a problem answers every \<open>json()\<close>,
  however many, with that same problem and is unchanged by it; its \<open>status\<close> is the
  problem's \<open>status\<close> and its \<open>ok\<close> is false. Every response \<open>_fetch\<close> resolves to that is
  not the transport's own is such a literal. The transport's response, read twice,
  rejects the second time.
\<close>

theorem synthesized_json_is_repeatable:
  "(asFetchResponse p = Inr r \<longrightarrow>
      json_times n r = (replicate n (Resolved p), r) \<and>
      get_prop p ''status'' = Inr (status_of r) \<and> \<not> ok_of r)
   \<and> (spart_fetch N endpoint http_method payload formData c = (Inr (Resolved r), c') \<and>
        (\<exists>b st q. r = Literal b st q) \<longrightarrow>
        (\<exists>q. json_times n r = (replicate n (Resolved q), r) \<and>
             get_prop q ''status'' = Inr (status_of r)))
   \<and> fst (json_times 2 (Native nr False)) =
        [fst (json_of (Native nr False)), Rejected TypeError]"
proof -
  have 1: "json_times n r = (replicate n (Resolved p), r) \<and>
      get_prop p ''status'' = Inr (status_of r) \<and> \<not> ok_of r"
    if "asFetchResponse p = Inr r" for p r
    using that by (auto simp: asFetchResponse_def json_times_literal split: sum.splits)
  have 2: "\<exists>q. json_times n r = (replicate n (Resolved q), r) \<and>
             get_prop q ''status'' = Inr (status_of r)"
    if "spart_fetch N endpoint http_method payload formData c = (Inr (Resolved r), c')"
      and "\<exists>b st q. r = Literal b st q"
    using spart_fetch_result [OF that(1)] that(2) 1 by blast
  have 3: "fst (json_times 2 (Native nr False)) =
        [fst (json_of (Native nr False)), Rejected TypeError]"
    by (simp add: numeral_2_eq_2 split: sum.splits)
  from 1 2 3 show ?thesis by blast
qed

text \<open>The literal for the endpoint that cannot be reached, read three times.\<close>

theorem synthesized_json_is_repeatable_witness:
  "spart_fetch test_net (JStr ''/unreachable'') (JStr ''GET'') JUndefined JUndefined [] =
     (Inr (Resolved (Literal False (JNum 0)
        (JObj [(''status'', JNum 0), (''detail'', JStr ''Please check your internet connection'')]))),
      [LogError TypeError])
   \<and> json_times 3 (Literal False (JNum 0)
        (JObj [(''status'', JNum 0), (''detail'', JStr ''Please check your internet connection'')])) =
      ([Resolved (JObj [(''status'', JNum 0), (''detail'', JStr ''Please check your internet connection'')]),
        Resolved (JObj [(''status'', JNum 0), (''detail'', JStr ''Please check your internet connection'')]),
        Resolved (JObj [(''status'', JNum 0), (''detail'', JStr ''Please check your internet connection'')])],
       Literal False (JNum 0)
        (JObj [(''status'', JNum 0), (''detail'', JStr ''Please check your internet connection'')]))"
proof -
  let ?p = "JObj [(''status'', JNum 0), (''detail'', JStr ''Please check your internet connection'')]"
  have f: "spart_fetch test_net (JStr ''/unreachable'') (JStr ''GET'') JUndefined JUndefined [] =
     (Inr (Resolved (Literal False (JNum 0) ?p)), [LogError TypeError])"
    by (simp add: fetch_defs)
  have a: "asFetchResponse ?p = Inr (Literal False (JNum 0) ?p)"
    by (simp add: asFetchResponse_def)
  from synthesized_json_is_repeatable
         [where p = ?p and r = "Literal False (JNum 0) ?p" and n = 3 and N = test_net
            and endpoint = "JStr ''/unreachable''" and http_method = "JStr ''GET''"
            and payload = JUndefined and formData = JUndefined and c = "[]"
            and c' = "[LogError TypeError]"] a f
  have "json_times 3 (Literal False (JNum 0) ?p) = (replicate 3 (Resolved ?p), Literal False (JNum 0) ?p)"
    by blast
  with f show ?thesis by (simp add: numeral_3_eq_3)
qed

end
